theory Spec2Isabelle
  imports Main "HOL-Library.Multiset"
begin

section \<open>The notification consumer (src/events/consumer.js)\<close>

text \<open>
  The file embeds \<^verbatim>\<open>src/events/consumer.js\<close>: the per-message callback of
  \<^verbatim>\<open>consumeQueue\<close>, the four handlers it is registered with, and
  \<^verbatim>\<open>fetchUserDetails\<close>. JavaScript values, exceptions and the calls to the
  broker, the mail provider and the User collection are explicit.
\<close>

subsection \<open>JavaScript values\<close>

text \<open>
  A decoded message is a JSON value; property reads add \<^verbatim>\<open>undefined\<close>. Numbers are
  the integers (no arithmetic is done on them by the consumer; fractions and doubles outside
  the exactly representable range are not modelled). An object is the list of its own
  properties.
\<close>

datatype jsval =
    JUndefined
  | JNull
  | JBool bool
  | JNum int
  | JStr string
  | JArr "jsval list"
  | JObj "(string \<times> jsval) list"

text \<open>
  What the consumer can throw or see thrown: a \<^verbatim>\<open>TypeError\<close> of the language (a
  property of \<^verbatim>\<open>null\<close>/\<^verbatim>\<open>undefined\<close> is read, a non-function is called), the
  \<^verbatim>\<open>SyntaxError\<close> of \<^verbatim>\<open>JSON.parse\<close>, the \<^verbatim>\<open>Error\<close> that
  \<^verbatim>\<open>fetchUserDetails\<close> raises for a missing user, and the Error objects with which
  the mail provider and the store reject (each carries its message). Every thrown value is
  an Error object, so reading \<^verbatim>\<open>error.message\<close> in a \<^verbatim>\<open>catch\<close> block does not
  throw.
\<close>

datatype js_error =
    TypeError
  | SyntaxError
  | UserNotFound jsval
  | DeliveryError string
  | StoreError string

text \<open>Sequencing of computations that may throw; \<open>Inl\<close> is the thrown error.\<close>

definition bindE :: "js_error + 'a \<Rightarrow> ('a \<Rightarrow> js_error + 'b) \<Rightarrow> js_error + 'b" where
  "bindE m f = (case m of Inl e \<Rightarrow> Inl e | Inr x \<Rightarrow> f x)"

text \<open>\<^verbatim>\<open>if (v)\<close>, \<^verbatim>\<open>!v\<close>, \<^verbatim>\<open>v || d\<close>: the falsy values are
  \<^verbatim>\<open>undefined\<close>, \<^verbatim>\<open>null\<close>, \<^verbatim>\<open>false\<close>, \<^verbatim>\<open>0\<close> and the empty string.\<close>

fun truthy :: "jsval \<Rightarrow> bool" where
  "truthy JUndefined = False"
| "truthy JNull = False"
| "truthy (JBool b) = b"
| "truthy (JNum n) = (n \<noteq> 0)"
| "truthy (JStr s) = (s \<noteq> [])"
| "truthy (JArr xs) = True"
| "truthy (JObj kvs) = True"

definition js_or :: "jsval \<Rightarrow> jsval \<Rightarrow> jsval" where
  "js_or a b = (if truthy a then a else b)"

text \<open>\<^verbatim>\<open>a === b\<close>: primitives are compared by value; two objects or arrays that come
  from different places of a decoded message are never the same object.\<close>

fun strict_eq :: "jsval \<Rightarrow> jsval \<Rightarrow> bool" where
  "strict_eq JUndefined JUndefined = True"
| "strict_eq JNull JNull = True"
| "strict_eq (JBool a) (JBool b) = (a = b)"
| "strict_eq (JNum a) (JNum b) = (a = b)"
| "strict_eq (JStr a) (JStr b) = (a = b)"
| "strict_eq a b = False"

fun nullish :: "jsval \<Rightarrow> bool" where
  "nullish JUndefined = True"
| "nullish JNull = True"
| "nullish v = False"

text \<open>\<^verbatim>\<open>v.p\<close> for the property names the consumer reads (none of them is a property
  of a string, number, boolean or array, nor inherited by an object): a TypeError on
  \<^verbatim>\<open>null\<close>/\<^verbatim>\<open>undefined\<close>, the own property of an object, \<^verbatim>\<open>undefined\<close>
  otherwise.\<close>

fun get_prop :: "jsval \<Rightarrow> string \<Rightarrow> js_error + jsval" where
  "get_prop JUndefined p = Inl TypeError"
| "get_prop JNull p = Inl TypeError"
| "get_prop (JObj kvs) p = Inr (case map_of kvs p of None \<Rightarrow> JUndefined | Some v \<Rightarrow> v)"
| "get_prop v p = Inr JUndefined"

text \<open>The decimal name of an array index, as a property key.\<close>

fun show_nat :: "nat \<Rightarrow> string" where
  "show_nat n = (if n < 10 then [char_of (48 + n)]
                 else show_nat (n div 10) @ [char_of (48 + n mod 10)])"

declare show_nat.simps [simp del]

text \<open>\<^verbatim>\<open>v[i]\<close>: out of range an array gives \<^verbatim>\<open>undefined\<close>; a string gives its
  \<open>i\<close>-th character; an object is read at the key \<open>i\<close>.\<close>

fun get_index :: "jsval \<Rightarrow> nat \<Rightarrow> js_error + jsval" where
  "get_index JUndefined i = Inl TypeError"
| "get_index JNull i = Inl TypeError"
| "get_index (JArr xs) i = Inr (if i < length xs then xs ! i else JUndefined)"
| "get_index (JStr s) i = Inr (if i < length s then JStr [s ! i] else JUndefined)"
| "get_index (JObj kvs) i = get_prop (JObj kvs) (show_nat i)"
| "get_index v i = Inr JUndefined"

text \<open>The receiver of \<^verbatim>\<open>.map\<close>, \<^verbatim>\<open>.find\<close> and \<^verbatim>\<open>.join\<close>: on
  \<^verbatim>\<open>null\<close>/\<^verbatim>\<open>undefined\<close> the property read throws, on any other non-array
  the property is not a function and the call throws.\<close>

fun as_array :: "jsval \<Rightarrow> js_error + jsval list" where
  "as_array (JArr xs) = Inr xs"
| "as_array v = Inl TypeError"

text \<open>\<^verbatim>\<open>xs.find(cb)\<close>: the first element on which the callback is true; a callback
  that throws ends the search with its error; no match is \<^verbatim>\<open>undefined\<close>.\<close>

fun js_find :: "(jsval \<Rightarrow> js_error + bool) \<Rightarrow> jsval list \<Rightarrow> js_error + jsval" where
  "js_find cb [] = Inr JUndefined"
| "js_find cb (x # xs) =
     (case cb x of Inl e \<Rightarrow> Inl e
      | Inr b \<Rightarrow> if b then Inr x else js_find cb xs)"

text \<open>\<^verbatim>\<open>xs.map((x, index) => cb)\<close> for a callback that may throw, the index counted
  from \<open>i\<close>.\<close>

fun js_map_from :: "nat \<Rightarrow> (jsval \<Rightarrow> nat \<Rightarrow> js_error + 'a) \<Rightarrow> jsval list \<Rightarrow> js_error + 'a list" where
  "js_map_from i cb [] = Inr []"
| "js_map_from i cb (x # xs) =
     bindE (cb x i) (\<lambda>y. bindE (js_map_from (Suc i) cb xs) (\<lambda>ys. Inr (y # ys)))"

subsection \<open>Template literals\<close>

text \<open>
  Converting a value to text (\<^verbatim>\<open>${v}\<close>, an element of \<^verbatim>\<open>join\<close>, the argument of
  \<^verbatim>\<open>new Date\<close>) calls the value's \<^verbatim>\<open>toString\<close>. For a decoded JSON value this
  throws a TypeError exactly when an object has an own property \<^verbatim>\<open>toString\<close> (it is
  not callable, and the inherited \<^verbatim>\<open>valueOf\<close> gives back the object), or when an
  array holds such an object, directly or inside nested arrays; an object without it is
  \<^verbatim>\<open>[object Object]\<close>, an array is its elements joined.
\<close>

fun stringifiable :: "jsval \<Rightarrow> bool"
  and all_stringifiable :: "jsval list \<Rightarrow> bool" where
  "stringifiable (JArr xs) = all_stringifiable xs"
| "stringifiable (JObj kvs) = (map_of kvs ''toString'' = None)"
| "stringifiable v = True"
| "all_stringifiable [] = True"
| "all_stringifiable (x # xs) = (stringifiable x \<and> all_stringifiable xs)"

text \<open>
  A rendered text is kept as its sequence of parts: the literal text and, for each
  interpolation, the value that was converted. The literal text of the HTML bodies is
  abridged to the label in front of each interpolation; layout and styling are left out.
  Subjects and plain texts are the source's.
\<close>

datatype part =
    Lit string
  | Interp jsval
  | LocaleDate jsval

text \<open>\<^verbatim>\<open>${v}\<close>\<close>

definition interp :: "jsval \<Rightarrow> js_error + part" where
  "interp v = (if stringifiable v then Inr (Interp v) else Inl TypeError)"

text \<open>\<^verbatim>\<open>new Date(v).toLocaleDateString()\<close>: the constructor converts an object or
  array to a primitive, which throws as above; an unreadable date is the text
  \<^verbatim>\<open>Invalid Date\<close>, not an error.\<close>

definition locale_date :: "jsval \<Rightarrow> js_error + part" where
  "locale_date v = (if stringifiable v then Inr (LocaleDate v) else Inl TypeError)"

text \<open>
  A template literal, evaluated from left to right: literal text, an interpolated
  expression (evaluated, then converted), or an interpolated expression whose value is
  already a text.
\<close>

datatype slot =
    Text string
  | Sub "js_error + jsval"
  | Rendered "js_error + part list"

fun template :: "slot list \<Rightarrow> js_error + part list" where
  "template [] = Inr []"
| "template (Text t # rest) = bindE (template rest) (\<lambda>ps. Inr (Lit t # ps))"
| "template (Sub e # rest) =
     bindE e (\<lambda>v. bindE (interp v) (\<lambda>p. bindE (template rest) (\<lambda>ps. Inr (p # ps))))"
| "template (Rendered e # rest) =
     bindE e (\<lambda>qs. bindE (template rest) (\<lambda>ps. Inr (qs @ ps)))"

text \<open>\<^verbatim>\<open>xs.join(sep)\<close>: \<^verbatim>\<open>null\<close> and \<^verbatim>\<open>undefined\<close> elements give the empty
  text, every other element is converted.\<close>

definition join_element :: "jsval \<Rightarrow> js_error + part" where
  "join_element x = (if nullish x then Inr (Lit []) else interp x)"

fun js_join :: "string \<Rightarrow> jsval list \<Rightarrow> js_error + part list" where
  "js_join sep [] = Inr []"
| "js_join sep [x] = bindE (join_element x) (\<lambda>p. Inr [p])"
| "js_join sep (x # xs) =
     bindE (join_element x) (\<lambda>p. bindE (js_join sep xs) (\<lambda>ps. Inr (p # Lit sep # ps)))"

subsection \<open>The outside world: broker, mail provider, User collection\<close>

record user_doc =
  doc_id :: jsval
  doc_username :: jsval
  doc_email :: jsval
  doc_role :: jsval

text \<open>The second argument of \<^verbatim>\<open>User.findOneAndUpdate\<close> (line 36).\<close>

record update =
  upd_username :: jsval
  upd_email :: jsval
  upd_role :: jsval

text \<open>The four arguments of \<^verbatim>\<open>sendEmail\<close>.\<close>

record mail =
  rcpt :: jsval
  subject :: string
  plain :: "part list"
  html :: "part list"

text \<open>A call that leaves the process. \<open>Nack allUpTo requeue\<close> is
  \<^verbatim>\<open>channel.nack(msg, allUpTo, requeue)\<close>.\<close>

datatype call =
    FindOne jsval
  | FindOneAndUpdate jsval update
  | SendEmail mail
  | Ack
  | Nack bool bool

text \<open>
  What the collaborators answer is a parameter of the model: the decoder
  \<^verbatim>\<open>JSON.parse\<close> of the language, and for each call to the store or to the mail
  provider whether it rejects (\<open>Some\<close> the Error object) or resolves, as a function of
  the call's arguments. Every call settles;
  one that never does is outside the model. Acknowledging and rejecting a message do not
  fail.
\<close>

record env =
  JSON_parse :: "string \<Rightarrow> js_error + jsval"
  findOne_fault :: "jsval \<Rightarrow> js_error option"
  findOneAndUpdate_fault :: "jsval \<Rightarrow> update \<Rightarrow> js_error option"
  sendEmail_fault :: "mail \<Rightarrow> js_error option"

text \<open>The state: the User collection and the calls issued so far, oldest first. Console
  output is not recorded.\<close>

record world =
  users :: "user_doc list"
  calls :: "call list"

record message =
  content :: string

subsection \<open>Asynchronous functions\<close>

text \<open>
  An \<^verbatim>\<open>async\<close> function run to settlement: from a state it gives the new state and
  either its value (the promise is fulfilled) or the error it rejects with.
\<close>

type_synonym 'a prog = "world \<Rightarrow> (js_error + 'a) \<times> world"

definition ret :: "'a \<Rightarrow> 'a prog" where
  "ret x = (\<lambda>w. (Inr x, w))"

definition throw :: "js_error \<Rightarrow> 'a prog" where
  "throw e = (\<lambda>w. (Inl e, w))"

definition lift :: "js_error + 'a \<Rightarrow> 'a prog" where
  "lift r = (\<lambda>w. (r, w))"

definition bnd :: "'a prog \<Rightarrow> ('a \<Rightarrow> 'b prog) \<Rightarrow> 'b prog" where
  "bnd m f = (\<lambda>w. case m w of (Inl e, w') \<Rightarrow> (Inl e, w') | (Inr x, w') \<Rightarrow> f x w')"

text \<open>\<^verbatim>\<open>try { m } catch (error) { h }\<close>\<close>

definition try_catch :: "'a prog \<Rightarrow> (js_error \<Rightarrow> 'a prog) \<Rightarrow> 'a prog" where
  "try_catch m h = (\<lambda>w. case m w of (Inl e, w') \<Rightarrow> h e w' | (Inr x, w') \<Rightarrow> (Inr x, w'))"

definition emit :: "call \<Rightarrow> unit prog" where
  "emit c = (\<lambda>w. (Inr (), w\<lparr>calls := calls w @ [c]\<rparr>))"

text \<open>
  \<^verbatim>\<open>xs.map(async (x, index) => ...)\<close> starts one task per element, and
  \<^verbatim>\<open>await Promise.all(tasks)\<close> rejects as soon as one of them rejects. A task is
  not cancelled by that: every task runs to its own settlement. The tasks are run here one
  after the other, in index order; the calls of concurrent tasks may in fact interleave in
  any order, and those of a task still pending when the join rejects may come after the
  handler has returned. No call's answer depends on that order, and the theorems below do
  not speak about the relative order of calls of different tasks.
\<close>

fun async_map_from :: "nat \<Rightarrow> (jsval \<Rightarrow> nat \<Rightarrow> unit prog) \<Rightarrow> jsval list \<Rightarrow> unit prog list" where
  "async_map_from i cb [] = []"
| "async_map_from i cb (x # xs) = cb x i # async_map_from (Suc i) cb xs"

fun settle_all :: "unit prog list \<Rightarrow> world \<Rightarrow> (js_error + unit) list \<times> world" where
  "settle_all [] w = ([], w)"
| "settle_all (p # ps) w =
     (case p w of (r, w') \<Rightarrow> (case settle_all ps w' of (rs, w'') \<Rightarrow> (r # rs, w'')))"

fun first_rejection :: "(js_error + unit) list \<Rightarrow> js_error option" where
  "first_rejection [] = None"
| "first_rejection (Inl e # rs) = Some e"
| "first_rejection (Inr u # rs) = first_rejection rs"

definition Promise_all :: "unit prog list \<Rightarrow> unit prog" where
  "Promise_all ps =
     (\<lambda>w. case settle_all ps w of (rs, w') \<Rightarrow>
        (case first_rejection rs of Some e \<Rightarrow> (Inl e, w') | None \<Rightarrow> (Inr (), w')))"

subsection \<open>The collaborators' calls\<close>

text \<open>
  Modelled from the spec: the User model (\<^verbatim>\<open>../models/user\<close>) and the store behind it
  are not among the sources. "\<^verbatim>\<open>findByExternalId(id) -> User | NotFound\<close>":
  \<^verbatim>\<open>User.findOne({ id: userId }).exec()\<close> resolves to the first document with that
  id, or to \<^verbatim>\<open>null\<close>.
\<close>

definition User_findOne :: "env \<Rightarrow> jsval \<Rightarrow> user_doc option prog" where
  "User_findOne env userId =
     bnd (emit (FindOne userId)) (\<lambda>_. \<lambda>w.
       case findOne_fault env userId of
         Some e \<Rightarrow> (Inl e, w)
       | None \<Rightarrow> (Inr (find (\<lambda>d. doc_id d = userId) (users w)), w))"

text \<open>
  Modelled from the spec: the upsert of the same User model, also absent from the sources.
  "Upsert the document store record keyed by \<^verbatim>\<open>id\<close> with
  \<^verbatim>\<open>{username, email, role}\<close>: insert if absent, overwrite those three fields if
  present (unspecified fields are left untouched by upsert semantics, not nulled)."
\<close>

definition overwrite :: "jsval \<Rightarrow> jsval \<Rightarrow> jsval" where
  "overwrite new old = (if new = JUndefined then old else new)"

definition apply_update :: "update \<Rightarrow> user_doc \<Rightarrow> user_doc" where
  "apply_update u d =
     d\<lparr>doc_username := overwrite (upd_username u) (doc_username d),
       doc_email := overwrite (upd_email u) (doc_email d),
       doc_role := overwrite (upd_role u) (doc_role d)\<rparr>"

fun upsertByExternalId :: "jsval \<Rightarrow> update \<Rightarrow> user_doc list \<Rightarrow> user_doc list" where
  "upsertByExternalId i u [] =
     [\<lparr>doc_id = i, doc_username = upd_username u, doc_email = upd_email u,
       doc_role = upd_role u\<rparr>]"
| "upsertByExternalId i u (d # ds) =
     (if doc_id d = i then apply_update u d # ds else d # upsertByExternalId i u ds)"

text \<open>\<^verbatim>\<open>User.findOneAndUpdate({ id }, update, { upsert: true })\<close>; an upsert that
  rejects is taken to have written nothing.\<close>

definition User_findOneAndUpdate :: "env \<Rightarrow> jsval \<Rightarrow> update \<Rightarrow> unit prog" where
  "User_findOneAndUpdate env i u =
     bnd (emit (FindOneAndUpdate i u)) (\<lambda>_. \<lambda>w.
       case findOneAndUpdate_fault env i u of
         Some e \<Rightarrow> (Inl e, w)
       | None \<Rightarrow> (Inr (), w\<lparr>users := upsertByExternalId i u (users w)\<rparr>))"

definition sendEmail :: "env \<Rightarrow> mail \<Rightarrow> unit prog" where
  "sendEmail env m =
     bnd (emit (SendEmail m)) (\<lambda>_. \<lambda>w.
       case sendEmail_fault env m of Some e \<Rightarrow> (Inl e, w) | None \<Rightarrow> (Inr (), w))"

subsection \<open>\<^verbatim>\<open>syncUserData\<close> (lines 33-43)\<close>

text \<open>The log line after the upsert interpolates \<^verbatim>\<open>id\<close> (line 39); what it prints is
  not recorded, but its conversion may throw, inside the \<^verbatim>\<open>try\<close>.\<close>

definition syncUserData :: "env \<Rightarrow> jsval \<Rightarrow> unit prog" where
  "syncUserData env event =
     try_catch
       (bnd (lift (get_prop event ''id'')) (\<lambda>id.
        bnd (lift (get_prop event ''username'')) (\<lambda>username.
        bnd (lift (get_prop event ''email'')) (\<lambda>email.
        bnd (lift (get_prop event ''role'')) (\<lambda>role.
        bnd (User_findOneAndUpdate env id
               \<lparr>upd_username = username, upd_email = email, upd_role = role\<rparr>) (\<lambda>_.
        bnd (lift (template [Text ''User data synced: '', Sub (Inr id)])) (\<lambda>_. ret ())))))))
       (\<lambda>error. ret ())"

subsection \<open>\<^verbatim>\<open>consumeQueue\<close> (lines 46-59)\<close>

text \<open>
  The callback registered with \<^verbatim>\<open>channel.consume\<close>, for one delivered message (the
  queue's name is only logged; a delivery always carries a message). The decoding on line
  48 stands before the \<^verbatim>\<open>try\<close>: when it throws, the callback's promise rejects and
  neither \<^verbatim>\<open>ack\<close> nor \<^verbatim>\<open>nack\<close> is reached.
\<close>

definition consumeQueue :: "env \<Rightarrow> (jsval \<Rightarrow> unit prog) \<Rightarrow> message \<Rightarrow> unit prog" where
  "consumeQueue env handler msg =
     bnd (lift (JSON_parse env (content msg))) (\<lambda>event.
       try_catch
         (bnd (handler event) (\<lambda>_. emit Ack))
         (\<lambda>error. emit (Nack False False)))"

subsection \<open>\<^verbatim>\<open>fetchUserDetails\<close> (lines 62-71)\<close>

text \<open>The message of the Error for a missing user interpolates \<^verbatim>\<open>userId\<close> (line 65).\<close>

definition fetchUserDetails :: "env \<Rightarrow> jsval \<Rightarrow> user_doc option prog" where
  "fetchUserDetails env userId =
     try_catch
       (bnd (User_findOne env userId) (\<lambda>user.
          case user of
            None \<Rightarrow>
              bnd (lift (template [Text ''User with ID '', Sub (Inr userId), Text '' not found'']))
                (\<lambda>_. throw (UserNotFound userId))
          | Some u \<Rightarrow> ret (Some u)))
       (\<lambda>error. ret None)"

subsection \<open>\<^verbatim>\<open>handleAuthEvents\<close> (lines 74-92)\<close>

definition handleAuthEvents :: "env \<Rightarrow> jsval \<Rightarrow> unit prog" where
  "handleAuthEvents env event =
     try_catch
       (bnd (lift (get_prop event ''type'')) (\<lambda>t.
          if strict_eq t (JStr ''user_created'') then
            bnd (lift (bindE (get_prop event ''data'') (\<lambda>data. get_prop data ''userId''))) (\<lambda>userId.
            bnd (fetchUserDetails env userId) (\<lambda>userDetails.
              case userDetails of
                None \<Rightarrow> ret ()
              | Some u \<Rightarrow>
                  sendEmail env
                    \<lparr>rcpt = doc_email u,
                     subject = ''Welcome to Our Service'',
                     plain = [Lit ''Your account has been successfully created.''],
                     html = [Lit ''<p>Your account has been created, welcome to our service!</p>'']\<rparr>))
          else ret ()))
       (\<lambda>error. ret ())"

subsection \<open>\<^verbatim>\<open>handleProductEvents\<close> (lines 95-181)\<close>

text \<open>
  The three blocks, each under its own \<^verbatim>\<open>if (event.type === ...)\<close>. The
  destructuring of \<^verbatim>\<open>event.data\<close> reads the fields in the order written. The body is
  rendered first (for a created product the date before it), then the plain text among the
  arguments of \<^verbatim>\<open>sendEmail\<close>.
\<close>

definition product_created :: "env \<Rightarrow> jsval \<Rightarrow> unit prog" where
  \<open>product_created env event =
     bnd (lift (get_prop event ''data'')) (\<lambda>data.
     bnd (lift (get_prop data ''title'')) (\<lambda>title.
     bnd (lift (get_prop data ''description'')) (\<lambda>description.
     bnd (lift (get_prop data ''price'')) (\<lambda>price.
     bnd (lift (get_prop data ''quantity'')) (\<lambda>quantity.
     bnd (lift (get_prop data ''seller'')) (\<lambda>seller.
     bnd (lift (get_prop data ''createdAt'')) (\<lambda>createdAt.
     bnd (lift (get_prop seller ''id'')) (\<lambda>sellerId.
     bnd (fetchUserDetails env sellerId) (\<lambda>sellerDetails.
       case sellerDetails of
         None \<Rightarrow> ret ()
       | Some s \<Rightarrow>
           bnd (lift (locale_date createdAt)) (\<lambda>formattedDate.
           bnd (lift (template
                  [Text ''Hi '', Sub (Inr (doc_username s)),
                   Text ''Your new product has been created successfully:'',
                   Text ''Title: '', Sub (Inr title),
                   Text ''Description: '', Sub (Inr description),
                   Text ''Price: $'', Sub (Inr price),
                   Text ''Quantity: '', Sub (Inr quantity),
                   Text ''Created on: '', Rendered (Inr [formattedDate])])) (\<lambda>messageBody.
           bnd (lift (template
                  [Text ''Your product "'', Sub (Inr title),
                   Text ''" has been successfully created!''])) (\<lambda>text.
             sendEmail env
               \<lparr>rcpt = doc_email s,
                subject = ''Product Created Successfully'',
                plain = text,
                html = messageBody\<rparr>))))))))))))\<close>

definition product_updated :: "env \<Rightarrow> jsval \<Rightarrow> unit prog" where
  \<open>product_updated env event =
     bnd (lift (get_prop event ''data'')) (\<lambda>data.
     bnd (lift (get_prop data ''title'')) (\<lambda>title.
     bnd (lift (get_prop data ''description'')) (\<lambda>description.
     bnd (lift (get_prop data ''price'')) (\<lambda>price.
     bnd (lift (get_prop data ''quantity'')) (\<lambda>quantity.
     bnd (lift (get_prop data ''category'')) (\<lambda>category.
     bnd (lift (get_prop data ''seller'')) (\<lambda>seller.
     bnd (lift (get_prop seller ''id'')) (\<lambda>sellerId.
     bnd (fetchUserDetails env sellerId) (\<lambda>sellerDetails.
       case sellerDetails of
         None \<Rightarrow> ret ()
       | Some s \<Rightarrow>
           bnd (lift (template
                  [Text ''Hi '', Sub (Inr (doc_username s)),
                   Text ''Your product has been updated successfully with the following details:'',
                   Text ''Title: '', Sub (Inr title),
                   Text ''Description: '', Sub (Inr description),
                   Text ''Category: '', Sub (Inr category),
                   Text ''Price: $'', Sub (Inr price),
                   Text ''Current Quantity: '', Sub (Inr quantity)])) (\<lambda>messageBody.
           bnd (lift (template
                  [Text ''Your product "'', Sub (Inr title),
                   Text ''" has been successfully updated!''])) (\<lambda>text.
             sendEmail env
               \<lparr>rcpt = doc_email s,
                subject = ''Product Updated Successfully'',
                plain = text,
                html = messageBody\<rparr>)))))))))))\<close>

definition product_deleted :: "env \<Rightarrow> jsval \<Rightarrow> unit prog" where
  \<open>product_deleted env event =
     bnd (lift (get_prop event ''data'')) (\<lambda>data.
     bnd (lift (get_prop data ''title'')) (\<lambda>title.
     bnd (lift (get_prop data ''description'')) (\<lambda>description.
     bnd (lift (get_prop data ''category'')) (\<lambda>category.
     bnd (lift (get_prop data ''price'')) (\<lambda>price.
     bnd (lift (get_prop data ''seller'')) (\<lambda>seller.
     bnd (lift (get_prop data ''quantity'')) (\<lambda>quantity.
     bnd (lift (get_prop seller ''id'')) (\<lambda>sellerId.
     bnd (fetchUserDetails env sellerId) (\<lambda>sellerDetails.
       case sellerDetails of
         None \<Rightarrow> ret ()
       | Some s \<Rightarrow>
           bnd (lift (template
                  [Text ''Hi '', Sub (Inr (doc_username s)),
                   Text ''We have processed your request to delete the following product:'',
                   Text ''Title: '', Sub (Inr title),
                   Text ''Description: '', Sub (Inr description),
                   Text ''Category: '', Sub (Inr category),
                   Text ''Price: $'', Sub (Inr price),
                   Text ''Remaining Quantity Before Deletion: '', Sub (Inr quantity)])) (\<lambda>messageBody.
           bnd (lift (template
                  [Text ''Your product "'', Sub (Inr title),
                   Text ''" has been successfully deleted.''])) (\<lambda>text.
             sendEmail env
               \<lparr>rcpt = doc_email s,
                subject = ''Product Deleted Successfully'',
                plain = text,
                html = messageBody\<rparr>)))))))))))\<close>

text \<open>\<^verbatim>\<open>if (event.type === t) { body }\<close>\<close>

definition if_type :: "jsval \<Rightarrow> string \<Rightarrow> unit prog \<Rightarrow> unit prog" where
  "if_type event t body =
     bnd (lift (get_prop event ''type'')) (\<lambda>ty. if strict_eq ty (JStr t) then body else ret ())"

definition handleProductEvents :: "env \<Rightarrow> jsval \<Rightarrow> unit prog" where
  "handleProductEvents env event =
     try_catch
       (bnd (if_type event ''product_created'' (product_created env event)) (\<lambda>_.
        bnd (if_type event ''product_updated'' (product_updated env event)) (\<lambda>_.
        if_type event ''product_deleted'' (product_deleted env event))))
       (\<lambda>error. ret ())"

subsection \<open>\<^verbatim>\<open>handleOrderEvents\<close> (lines 186-368)\<close>

text \<open>
  The three \<^verbatim>\<open>case\<close> blocks have one shape; they differ in the wording of the mails
  and in how the remaining stock of a line item is found, and are written once, with the
  block as a parameter.
\<close>

datatype order_kind = Placed | Updated | Deleted

text \<open>\<^verbatim>\<open>event.data.<field>[index]\<close>\<close>

definition line_item :: "jsval \<Rightarrow> string \<Rightarrow> nat \<Rightarrow> js_error + jsval" where
  "line_item event field index =
     bindE (get_prop event ''data'') (\<lambda>data.
     bindE (get_prop data field) (\<lambda>xs. get_index xs index))"

text \<open>Lines 194-196 and 252-254:
  \<^verbatim>\<open>event.data.remainingQuantities.find((product) => product.productId === event.data.productIds[index])?.remainingQuantity\<close>\<close>

definition find_remaining :: "jsval \<Rightarrow> nat \<Rightarrow> js_error + jsval" where
  "find_remaining event index =
     bindE (get_prop event ''data'') (\<lambda>data.
     bindE (get_prop data ''remainingQuantities'') (\<lambda>rqs.
     bindE (as_array rqs) (\<lambda>records.
     bindE (js_find
              (\<lambda>product.
                 bindE (get_prop product ''productId'') (\<lambda>a.
                 bindE (line_item event ''productIds'' index) (\<lambda>b. Inr (strict_eq a b))))
              records) (\<lambda>found.
       if nullish found then Inr JUndefined else get_prop found ''remainingQuantity''))))"

text \<open>Line 310: \<^verbatim>\<open>event.data.remainingQuantities[index]\<close>\<close>

definition indexed_remaining :: "jsval \<Rightarrow> nat \<Rightarrow> js_error + jsval" where
  "indexed_remaining event index = line_item event ''remainingQuantities'' index"

fun remainingQuantity_of :: "order_kind \<Rightarrow> jsval \<Rightarrow> nat \<Rightarrow> js_error + jsval" where
  "remainingQuantity_of Placed event index = find_remaining event index"
| "remainingQuantity_of Updated event index = find_remaining event index"
| "remainingQuantity_of Deleted event index = indexed_remaining event index"

text \<open>The wording of the seller mail: introduction, label of the quantity, subject, and
  the plain text before and after the title.\<close>

fun seller_intro :: "order_kind \<Rightarrow> string" where
  "seller_intro Placed = ''A new order has been placed for your product:''"
| "seller_intro Updated = ''The order for your product has been updated:''"
| "seller_intro Deleted = ''An order for your product has been cancelled:''"

fun seller_quantity_label :: "order_kind \<Rightarrow> string" where
  "seller_quantity_label Placed = ''Quantity Ordered: ''"
| "seller_quantity_label Updated = ''Updated Quantity: ''"
| "seller_quantity_label Deleted = ''Cancelled Quantity: ''"

fun seller_subject :: "order_kind \<Rightarrow> string" where
  "seller_subject Placed = ''New Order Received''"
| "seller_subject Updated = ''Order Updated''"
| "seller_subject Deleted = ''Order Cancelled''"

fun seller_plain_begin :: "order_kind \<Rightarrow> string" where
  \<open>seller_plain_begin Placed = ''A new order has been placed for "''\<close>
| \<open>seller_plain_begin Updated = ''The order for "''\<close>
| \<open>seller_plain_begin Deleted = ''The order for "''\<close>

fun seller_plain_end :: "order_kind \<Rightarrow> string" where
  \<open>seller_plain_end Placed = ''"''\<close>
| \<open>seller_plain_end Updated = ''" has been updated''\<close>
| \<open>seller_plain_end Deleted = ''" has been cancelled.''\<close>

text \<open>The value shown as the stock: \<^verbatim>\<open>remainingQuantity || "Unknown"\<close>\<close>

definition stock_value :: "jsval \<Rightarrow> jsval" where
  "stock_value remainingQuantity = js_or remainingQuantity (JStr ''Unknown'')"

text \<open>The part of the seller mail that shows the stock, once converted:
  \<^verbatim>\<open>${remainingQuantity || "Unknown"}\<close>\<close>

definition stock_shown :: "jsval \<Rightarrow> part" where
  "stock_shown remainingQuantity = Interp (stock_value remainingQuantity)"

text \<open>The body of the seller mail (lines 199-210, 257-268, 313-324).\<close>

definition sellerMessage :: "order_kind \<Rightarrow> jsval \<Rightarrow> user_doc \<Rightarrow> nat \<Rightarrow> jsval \<Rightarrow> js_error + part list" where
  "sellerMessage k event s index remainingQuantity =
     template
       [Text ''Hi '', Sub (Inr (doc_username s)),
        Text (seller_intro k),
        Text ''Product: '', Sub (line_item event ''titles'' index),
        Text (seller_quantity_label k), Sub (line_item event ''quantities'' index),
        Text ''Remaining Stock: '', Sub (Inr (stock_value remainingQuantity))]"

text \<open>The plain text of the seller mail (lines 214, 272, 328).\<close>

definition seller_plain :: "order_kind \<Rightarrow> jsval \<Rightarrow> nat \<Rightarrow> js_error + part list" where
  "seller_plain k event index =
     template
       [Text (seller_plain_begin k), Sub (line_item event ''titles'' index),
        Text (seller_plain_end k)]"

text \<open>The callback of \<^verbatim>\<open>event.data.sellerIds.map\<close> (lines 192-218, 250-276,
  308-332).\<close>

definition seller_task :: "env \<Rightarrow> order_kind \<Rightarrow> jsval \<Rightarrow> jsval \<Rightarrow> nat \<Rightarrow> unit prog" where
  "seller_task env k event sellerId index =
     bnd (fetchUserDetails env sellerId) (\<lambda>sellerDetails.
     bnd (lift (remainingQuantity_of k event index)) (\<lambda>remainingQuantity.
       case sellerDetails of
         None \<Rightarrow> ret ()
       | Some s \<Rightarrow>
           bnd (lift (sellerMessage k event s index remainingQuantity)) (\<lambda>message.
           bnd (lift (seller_plain k event index)) (\<lambda>text.
             sendEmail env
               \<lparr>rcpt = doc_email s,
                subject = seller_subject k,
                plain = text,
                html = message\<rparr>))))"

text \<open>The wording of the buyer mail.\<close>

fun buyer_quantity_label :: "order_kind \<Rightarrow> string" where
  "buyer_quantity_label Placed = '' (Quantity: ''"
| "buyer_quantity_label Updated = '' (Updated Quantity: ''"
| "buyer_quantity_label Deleted = '' (Cancelled Quantity: ''"

fun buyer_intro :: "order_kind \<Rightarrow> string" where
  "buyer_intro Placed = ''Your order has been successfully placed:''"
| "buyer_intro Updated = ''Your order has been updated:''"
| "buyer_intro Deleted = ''Your order has been cancelled:''"

fun buyer_subject :: "order_kind \<Rightarrow> string" where
  "buyer_subject Placed = ''Order Placed''"
| "buyer_subject Updated = ''Order Updated''"
| "buyer_subject Deleted = ''Order Cancelled''"

definition buyer_plain_begin :: string where
  \<open>buyer_plain_begin = ''Your order for "''\<close>

fun buyer_plain_end :: "order_kind \<Rightarrow> string" where
  \<open>buyer_plain_end Placed = ''" has been placed successfully.''\<close>
| \<open>buyer_plain_end Updated = ''" has been updated.''\<close>
| \<open>buyer_plain_end Deleted = ''" has been cancelled.''\<close>

text \<open>One entry of the buyer's list:
  \<^verbatim>\<open><li>${title} (Quantity: ${event.data.quantities[index]})</li>\<close>\<close>

definition buyer_item :: "order_kind \<Rightarrow> jsval \<Rightarrow> jsval \<Rightarrow> nat \<Rightarrow> js_error + part list" where
  "buyer_item k event title index =
     template
       [Text ''<li>'', Sub (Inr title), Text (buyer_quantity_label k),
        Sub (line_item event ''quantities'' index), Text '')</li>'']"

text \<open>\<^verbatim>\<open>event.data.titles.map((title, index) => ...).join("")\<close>\<close>

definition productList :: "order_kind \<Rightarrow> jsval \<Rightarrow> js_error + part list" where
  "productList k event =
     bindE (get_prop event ''data'') (\<lambda>data.
     bindE (get_prop data ''titles'') (\<lambda>ts.
     bindE (as_array ts) (\<lambda>titles.
     bindE (js_map_from 0 (\<lambda>title index. buyer_item k event title index) titles) (\<lambda>items.
       Inr (concat items)))))"

text \<open>\<^verbatim>\<open>event.data.titles.join(", ")\<close>\<close>

definition titles_joined :: "jsval \<Rightarrow> js_error + part list" where
  "titles_joined event =
     bindE (get_prop event ''data'') (\<lambda>data.
     bindE (get_prop data ''titles'') (\<lambda>ts.
     bindE (as_array ts) (\<lambda>titles. js_join '', '' titles)))"

text \<open>The buyer's part, after the join (lines 222-242, 280-300, 336-356): the list, the
  body, then the plain text among the arguments of \<^verbatim>\<open>sendEmail\<close>.\<close>

definition buyer_task :: "env \<Rightarrow> order_kind \<Rightarrow> jsval \<Rightarrow> user_doc option \<Rightarrow> unit prog" where
  \<open>buyer_task env k event userDetails =
     (case userDetails of
        None \<Rightarrow> ret ()
      | Some u \<Rightarrow>
          bnd (lift (productList k event)) (\<lambda>items.
          bnd (lift (template
                 [Text ''Hi '', Sub (Inr (doc_username u)), Text (buyer_intro k),
                  Rendered (Inr items)])) (\<lambda>userMessage.
          bnd (lift (template
                 [Text buyer_plain_begin, Rendered (titles_joined event),
                  Text (buyer_plain_end k)])) (\<lambda>text.
            sendEmail env
              \<lparr>rcpt = doc_email u,
               subject = buyer_subject k,
               plain = text,
               html = userMessage\<rparr>))))\<close>

text \<open>
  One \<^verbatim>\<open>case\<close> block. The buyer lookup is started first (line 190) and awaited after
  the join (line 222); \<^verbatim>\<open>fetchUserDetails\<close> never rejects, so its result is taken
  where it is started.
\<close>

definition order_case :: "env \<Rightarrow> order_kind \<Rightarrow> jsval \<Rightarrow> unit prog" where
  "order_case env k event =
     bnd (lift (bindE (get_prop event ''data'') (\<lambda>data. get_prop data ''userId''))) (\<lambda>userId.
     bnd (fetchUserDetails env userId) (\<lambda>userDetails.
     bnd (lift (bindE (get_prop event ''data'') (\<lambda>data.
                bindE (get_prop data ''sellerIds'') as_array))) (\<lambda>sellerIds.
     bnd (Promise_all (async_map_from 0 (seller_task env k event) sellerIds)) (\<lambda>_.
       buyer_task env k event userDetails))))"

text \<open>The \<^verbatim>\<open>default\<close> branch logs the tag (line 362); what it prints is not recorded,
  but its conversion may throw, inside the \<^verbatim>\<open>try\<close>.\<close>

definition handleOrderEvents :: "env \<Rightarrow> jsval \<Rightarrow> unit prog" where
  "handleOrderEvents env event =
     try_catch
       (bnd (lift (get_prop event ''type'')) (\<lambda>t.
          if strict_eq t (JStr ''order_placed'') then order_case env Placed event
          else if strict_eq t (JStr ''order_updated'') then order_case env Updated event
          else if strict_eq t (JStr ''order_deleted'') then order_case env Deleted event
          else bnd (lift (template [Text ''Unhandled event type: '',
                                    Sub (get_prop event ''type'')])) (\<lambda>_. ret ())))
       (\<lambda>error. ret ())"

subsection \<open>\<^verbatim>\<open>initConsumer\<close> (lines 23-26)\<close>

datatype queue =
    Product_events_for_notifications
  | Order_events_for_notifications
  | Auth_events
  | User_data_sync

fun handler_of :: "env \<Rightarrow> queue \<Rightarrow> jsval \<Rightarrow> unit prog" where
  "handler_of env Product_events_for_notifications = handleProductEvents env"
| "handler_of env Order_events_for_notifications = handleOrderEvents env"
| "handler_of env Auth_events = handleAuthEvents env"
| "handler_of env User_data_sync = syncUserData env"

text \<open>The type tags a handler compares \<^verbatim>\<open>event.type\<close> with; \<^verbatim>\<open>syncUserData\<close>
  does not look at the tag.\<close>

fun known_types :: "queue \<Rightarrow> string list" where
  "known_types Product_events_for_notifications =
     [''product_created'', ''product_updated'', ''product_deleted'']"
| "known_types Order_events_for_notifications =
     [''order_placed'', ''order_updated'', ''order_deleted'']"
| "known_types Auth_events = [''user_created'']"
| "known_types User_data_sync = []"

subsection \<open>Sample inputs\<close>

text \<open>A collection with one buyer and two sellers, and the bodies of a few messages with
  the values they decode to.\<close>

definition sample_users :: "user_doc list" where
  "sample_users =
     [\<lparr>doc_id = JStr ''u1'', doc_username = JStr ''alice'', doc_email = JStr ''alice@x'',
       doc_role = JStr ''buyer''\<rparr>,
      \<lparr>doc_id = JStr ''s1'', doc_username = JStr ''bob'', doc_email = JStr ''bob@x'',
       doc_role = JStr ''seller''\<rparr>,
      \<lparr>doc_id = JStr ''s2'', doc_username = JStr ''carol'', doc_email = JStr ''carol@x'',
       doc_role = JStr ''seller''\<rparr>]"

definition sample_world :: world where
  "sample_world = \<lparr>users = sample_users, calls = []\<rparr>"

definition order_body :: "string \<Rightarrow> string" where
  \<open>order_body t =
     ''{"type":"'' @ t @ ''","data":{"userId":"u1","sellerIds":["s1","s2"],"productIds":["p1","p2"],"titles":["Lamp","Desk"],"quantities":[2,1],"remainingQuantities":[{"productId":"p2","remainingQuantity":5}]}}''\<close>

definition order_event :: "string \<Rightarrow> jsval" where
  "order_event t =
     JObj [(''type'', JStr t),
           (''data'', JObj [(''userId'', JStr ''u1''),
                            (''sellerIds'', JArr [JStr ''s1'', JStr ''s2'']),
                            (''productIds'', JArr [JStr ''p1'', JStr ''p2'']),
                            (''titles'', JArr [JStr ''Lamp'', JStr ''Desk'']),
                            (''quantities'', JArr [JNum 2, JNum 1]),
                            (''remainingQuantities'',
                               JArr [JObj [(''productId'', JStr ''p2''),
                                           (''remainingQuantity'', JNum 5)]])])]"

definition sold_out_body :: string where
  \<open>sold_out_body =
     ''{"type":"order_placed","data":{"userId":"u1","sellerIds":["s1"],"productIds":["p1"],"titles":["Lamp"],"quantities":[2],"remainingQuantities":[{"productId":"p1","remainingQuantity":0}]}}''\<close>

definition sold_out_event :: jsval where
  "sold_out_event =
     JObj [(''type'', JStr ''order_placed''),
           (''data'', JObj [(''userId'', JStr ''u1''),
                            (''sellerIds'', JArr [JStr ''s1'']),
                            (''productIds'', JArr [JStr ''p1'']),
                            (''titles'', JArr [JStr ''Lamp'']),
                            (''quantities'', JArr [JNum 2]),
                            (''remainingQuantities'',
                               JArr [JObj [(''productId'', JStr ''p1''),
                                           (''remainingQuantity'', JNum 0)]])])]"

definition sync_body :: string where
  \<open>sync_body = ''{"id":"u1","username":"a","email":"a@x","role":"seller"}''\<close>

definition sync_event :: jsval where
  "sync_event =
     JObj [(''id'', JStr ''u1''), (''username'', JStr ''a''), (''email'', JStr ''a@x''),
           (''role'', JStr ''seller'')]"

definition malformed_body :: string where
  \<open>malformed_body = ''{"type":''\<close>

definition sample_parse :: "string \<Rightarrow> js_error + jsval" where
  "sample_parse body =
     (if body = order_body ''order_placed'' then Inr (order_event ''order_placed'')
      else if body = order_body ''order_deleted'' then Inr (order_event ''order_deleted'')
      else if body = order_body ''order_shipped'' then Inr (order_event ''order_shipped'')
      else if body = sold_out_body then Inr sold_out_event
      else if body = sync_body then Inr sync_event
      else Inl SyntaxError)"

text \<open>Collaborators that never fail; a mail provider that rejects every mail to carol; a
  store that rejects every upsert.\<close>

definition sample_env :: env where
  "sample_env =
     \<lparr>JSON_parse = sample_parse,
      findOne_fault = (\<lambda>i. None),
      findOneAndUpdate_fault = (\<lambda>i u. None),
      sendEmail_fault = (\<lambda>m. None)\<rparr>"

definition mail_fault_env :: env where
  "mail_fault_env =
     sample_env\<lparr>sendEmail_fault :=
       (\<lambda>m. if rcpt m = JStr ''carol@x'' then Some (DeliveryError ''mailbox unavailable'')
            else None)\<rparr>"

definition store_fault_env :: env where
  "store_fault_env =
     sample_env\<lparr>findOneAndUpdate_fault := (\<lambda>i u. Some (StoreError ''connection lost''))\<rparr>"

subsection \<open>Vocabulary of the statements\<close>

text \<open>The value of a property read that does not throw.\<close>

definition own_prop :: "jsval \<Rightarrow> string \<Rightarrow> jsval" where
  "own_prop v p = (case get_prop v p of Inl e \<Rightarrow> JUndefined | Inr x \<Rightarrow> x)"

text \<open>The \<^verbatim>\<open>case\<close> label of each block of \<^verbatim>\<open>handleOrderEvents\<close>.\<close>

fun order_tag :: "order_kind \<Rightarrow> string" where
  "order_tag Placed = ''order_placed''"
| "order_tag Updated = ''order_updated''"
| "order_tag Deleted = ''order_deleted''"

text \<open>The calls a handler makes, as opposed to those of \<^verbatim>\<open>consumeQueue\<close>.\<close>

fun store_or_mail :: "call \<Rightarrow> bool" where
  "store_or_mail Ack = False"
| "store_or_mail (Nack a r) = False"
| "store_or_mail c = True"

text \<open>The mails handed to the provider, in a list of calls.\<close>

fun mail_of :: "call \<Rightarrow> mail list" where
  "mail_of (SendEmail m) = [m]"
| "mail_of c = []"

definition mails_sent :: "call list \<Rightarrow> mail list" where
  "mails_sent cs = concat (map mail_of cs)"

text \<open>What \<^verbatim>\<open>fetchUserDetails\<close> resolves to: the user, or nothing when the lookup
  fails or finds no one.\<close>

definition resolved :: "env \<Rightarrow> world \<Rightarrow> jsval \<Rightarrow> user_doc option" where
  "resolved env w i =
     (case findOne_fault env i of
        Some e \<Rightarrow> None
      | None \<Rightarrow> find (\<lambda>d. doc_id d = i) (users w))"

text \<open>The \<^verbatim>\<open>remainingQuantity\<close> of the first record with the given product id,
  \<^verbatim>\<open>undefined\<close> when there is none.\<close>

definition first_match :: "jsval list \<Rightarrow> jsval \<Rightarrow> jsval" where
  "first_match records productId =
     (case find (\<lambda>r. strict_eq (own_prop r ''productId'') productId) records of
        None \<Rightarrow> JUndefined
      | Some r \<Rightarrow> own_prop r ''remainingQuantity'')"

text \<open>
  Two properties of a computation used in the proofs. \<open>traced P m\<close>: \<open>m\<close> does not
  read the list of calls and only appends to it, calls that satisfy \<open>P\<close>.
  \<open>reads_only m\<close>: \<open>m\<close> leaves the User collection as it is.
\<close>

definition reset :: "world \<Rightarrow> world" where
  "reset w = w\<lparr>calls := []\<rparr>"

definition traced :: "(call \<Rightarrow> bool) \<Rightarrow> 'a prog \<Rightarrow> bool" where
  "traced P m =
     (\<forall>w. m w = (fst (m (reset w)),
                  (snd (m (reset w)))\<lparr>calls := calls w @ calls (snd (m (reset w)))\<rparr>)
          \<and> list_all P (calls (snd (m (reset w)))))"

definition reads_only :: "'a prog \<Rightarrow> bool" where
  "reads_only m = (\<forall>w. users (snd (m w)) = users w)"

section \<open>Proofs\<close>

subsection \<open>Calls are only appended\<close>

lemma reset_simps [simp]:
  "calls (reset w) = []" "users (reset w) = users w"
  "reset (w\<lparr>calls := cs\<rparr>) = reset w" "reset (reset w) = reset w"
  by (simp_all add: reset_def)

lemma reset_eq: "users w' = users w \<Longrightarrow> reset w' = reset w"
  by (cases w, cases w') (simp add: reset_def)

lemma tracedI:
  assumes "\<And>w. m w = (fst (m (reset w)), (snd (m (reset w)))\<lparr>calls := calls w @ calls (snd (m (reset w)))\<rparr>)"
      and "\<And>w. list_all P (calls (snd (m (reset w))))"
  shows "traced P m"
  using assms unfolding traced_def by blast

lemma tracedD:
  assumes "traced P m"
  shows "m w = (fst (m (reset w)), (snd (m (reset w)))\<lparr>calls := calls w @ calls (snd (m (reset w)))\<rparr>)"
    and "list_all P (calls (snd (m (reset w))))"
  using assms unfolding traced_def by blast+

lemma traced_ret [intro!, simp]: "traced P (ret x)"
  by (simp add: traced_def ret_def)

lemma traced_throw [intro!, simp]: "traced P (throw e)"
  by (simp add: traced_def throw_def)

lemma traced_lift [intro!, simp]: "traced P (lift r)"
  by (simp add: traced_def lift_def)

lemma traced_emit [intro]: "P c \<Longrightarrow> traced P (emit c)"
  by (simp add: traced_def emit_def reset_def)

lemma traced_bnd [intro!]:
  assumes m: "traced P m" and f: "\<And>x. traced P (f x)"
  shows "traced P (bnd m f)"
proof (rule tracedI)
  fix w
  obtain r w1 where r: "m (reset w) = (r, w1)" by (cases "m (reset w)")
  have mw: "m w = (r, w1\<lparr>calls := calls w @ calls w1\<rparr>)"
    using tracedD(1)[OF m, of w] r by simp
  have p1: "list_all P (calls w1)" using tracedD(2)[OF m, of w] r by simp
  have w1: "w1 = w1\<lparr>calls := calls w1\<rparr>" by simp
  show "bnd m f w = (fst (bnd m f (reset w)), (snd (bnd m f (reset w)))\<lparr>calls := calls w @ calls (snd (bnd m f (reset w)))\<rparr>)"
  proof (cases r)
    case (Inl e)
    then show ?thesis using r mw by (simp add: bnd_def)
  next
    case (Inr x)
    have a: "f x (w1\<lparr>calls := calls w @ calls w1\<rparr>) = (fst (f x (reset w1)), (snd (f x (reset w1)))\<lparr>calls := (calls w @ calls w1) @ calls (snd (f x (reset w1)))\<rparr>)"
      using tracedD(1)[OF f, of x "w1\<lparr>calls := calls w @ calls w1\<rparr>"] by simp
    have b: "f x w1 = (fst (f x (reset w1)), (snd (f x (reset w1)))\<lparr>calls := calls w1 @ calls (snd (f x (reset w1)))\<rparr>)"
      using tracedD(1)[OF f, of x w1] by simp
    show ?thesis using Inr r mw a b by (simp add: bnd_def)
  qed
  show "list_all P (calls (snd (bnd m f (reset w))))"
  proof (cases r)
    case (Inl e)
    then show ?thesis using r p1 by (simp add: bnd_def)
  next
    case (Inr x)
    have b: "f x w1 = (fst (f x (reset w1)), (snd (f x (reset w1)))\<lparr>calls := calls w1 @ calls (snd (f x (reset w1)))\<rparr>)"
      using tracedD(1)[OF f, of x w1] by simp
    have "list_all P (calls (snd (f x (reset w1))))" using tracedD(2)[OF f, of x w1] by simp
    then show ?thesis using Inr r p1 b by (simp add: bnd_def)
  qed
qed


lemma traced_try_catch [intro!]:
  assumes m: "traced P m" and h: "\<And>e. traced P (h e)"
  shows "traced P (try_catch m h)"
proof (rule tracedI)
  fix w
  obtain r w1 where r: "m (reset w) = (r, w1)" by (cases "m (reset w)")
  have mw: "m w = (r, w1\<lparr>calls := calls w @ calls w1\<rparr>)"
    using tracedD(1)[OF m, of w] r by simp
  have p1: "list_all P (calls w1)" using tracedD(2)[OF m, of w] r by simp
  show "try_catch m h w = (fst (try_catch m h (reset w)), (snd (try_catch m h (reset w)))\<lparr>calls := calls w @ calls (snd (try_catch m h (reset w)))\<rparr>)"
  proof (cases r)
    case (Inr x)
    then show ?thesis using r mw by (simp add: try_catch_def)
  next
    case (Inl e)
    have a: "h e (w1\<lparr>calls := calls w @ calls w1\<rparr>) = (fst (h e (reset w1)), (snd (h e (reset w1)))\<lparr>calls := (calls w @ calls w1) @ calls (snd (h e (reset w1)))\<rparr>)"
      using tracedD(1)[OF h, of e "w1\<lparr>calls := calls w @ calls w1\<rparr>"] by simp
    have b: "h e w1 = (fst (h e (reset w1)), (snd (h e (reset w1)))\<lparr>calls := calls w1 @ calls (snd (h e (reset w1)))\<rparr>)"
      using tracedD(1)[OF h, of e w1] by simp
    show ?thesis using Inl r mw a b by (simp add: try_catch_def)
  qed
  show "list_all P (calls (snd (try_catch m h (reset w))))"
  proof (cases r)
    case (Inr x)
    then show ?thesis using r p1 by (simp add: try_catch_def)
  next
    case (Inl e)
    have b: "h e w1 = (fst (h e (reset w1)), (snd (h e (reset w1)))\<lparr>calls := calls w1 @ calls (snd (h e (reset w1)))\<rparr>)"
      using tracedD(1)[OF h, of e w1] by simp
    have "list_all P (calls (snd (h e (reset w1))))" using tracedD(2)[OF h, of e w1] by simp
    then show ?thesis using Inl r p1 b by (simp add: try_catch_def)
  qed
qed

lemma traced_case_option [intro!]:
  "traced P a \<Longrightarrow> (\<And>x. traced P (b x)) \<Longrightarrow> traced P (case v of None \<Rightarrow> a | Some x \<Rightarrow> b x)"
  by (cases v) simp_all

lemma traced_if [intro!]:
  "traced P a \<Longrightarrow> traced P b \<Longrightarrow> traced P (if c then a else b)"
  by simp

lemma traced_User_findOne [intro!]: "P (FindOne i) \<Longrightarrow> traced P (User_findOne env i)"
  by (simp add: traced_def User_findOne_def bnd_def emit_def reset_def split: option.splits)

lemma traced_sendEmail [intro!]: "P (SendEmail m) \<Longrightarrow> traced P (sendEmail env m)"
  by (simp add: traced_def sendEmail_def bnd_def emit_def reset_def split: option.splits)

lemma traced_User_findOneAndUpdate [intro!]:
  "P (FindOneAndUpdate i u) \<Longrightarrow> traced P (User_findOneAndUpdate env i u)"
  by (simp add: traced_def User_findOneAndUpdate_def bnd_def emit_def reset_def split: option.splits)

lemma traced_fetchUserDetails [intro!]: "P (FindOne i) \<Longrightarrow> traced P (fetchUserDetails env i)"
  unfolding fetchUserDetails_def
  by (intro traced_try_catch traced_bnd traced_User_findOne traced_case_option traced_throw
        traced_ret traced_lift)

lemma settle_all_traced:
  assumes "list_all (traced P) ps"
  shows "settle_all ps w =
           (fst (settle_all ps (reset w)),
            (snd (settle_all ps (reset w)))\<lparr>calls := calls w @ calls (snd (settle_all ps (reset w)))\<rparr>)
         \<and> list_all P (calls (snd (settle_all ps (reset w))))"
  using assms
proof (induction ps arbitrary: w)
  case Nil
  show ?case by (simp add: reset_def)
next
  case (Cons p ps)
  from Cons.prems have p: "traced P p" and ps: "list_all (traced P) ps" by simp_all
  obtain r w1 where r: "p (reset w) = (r, w1)" by (cases "p (reset w)")
  have pw: "p w = (r, w1\<lparr>calls := calls w @ calls w1\<rparr>)"
    using tracedD(1)[OF p, of w] r by simp
  have p1: "list_all P (calls w1)" using tracedD(2)[OF p, of w] r by simp
  obtain rs w2 where rs: "settle_all ps (reset w1) = (rs, w2)" by (cases "settle_all ps (reset w1)")
  have a: "settle_all ps (w1\<lparr>calls := calls w @ calls w1\<rparr>) = (rs, w2\<lparr>calls := (calls w @ calls w1) @ calls w2\<rparr>)"
    using Cons.IH[OF ps, of "w1\<lparr>calls := calls w @ calls w1\<rparr>"] rs by simp
  have b: "settle_all ps w1 = (rs, w2\<lparr>calls := calls w1 @ calls w2\<rparr>)"
    using Cons.IH[OF ps, of w1] rs by simp
  have p2: "list_all P (calls w2)" using Cons.IH[OF ps, of w1] rs by simp
  show ?case using r pw a b p1 p2 by simp
qed

lemma traced_Promise_all [intro]:
  assumes "list_all (traced P) ps"
  shows "traced P (Promise_all ps)"
proof (rule tracedI)
  fix w
  obtain rs w1 where rs: "settle_all ps (reset w) = (rs, w1)" by (cases "settle_all ps (reset w)")
  have a: "settle_all ps w = (rs, w1\<lparr>calls := calls w @ calls w1\<rparr>)"
    using settle_all_traced[OF assms, of w] rs by simp
  show "Promise_all ps w = (fst (Promise_all ps (reset w)), (snd (Promise_all ps (reset w)))\<lparr>calls := calls w @ calls (snd (Promise_all ps (reset w)))\<rparr>)"
    using rs a by (simp add: Promise_all_def split: option.splits)
  show "list_all P (calls (snd (Promise_all ps (reset w))))"
    using settle_all_traced[OF assms, of w] rs by (simp add: Promise_all_def split: option.splits)
qed

lemma list_all_async_map_from:
  "(\<And>x i. Q (cb x i)) \<Longrightarrow> list_all Q (async_map_from j cb xs)"
  by (induction xs arbitrary: j) simp_all

lemma traced_seller_task [intro!]:
  "(\<And>c. store_or_mail c \<Longrightarrow> P c) \<Longrightarrow> traced P (seller_task env k event sellerId index)"
  unfolding seller_task_def
  by (intro traced_bnd traced_fetchUserDetails traced_lift traced_case_option traced_ret traced_sendEmail) simp_all

lemma traced_buyer_task [intro!]:
  "(\<And>c. store_or_mail c \<Longrightarrow> P c) \<Longrightarrow> traced P (buyer_task env k event u)"
  unfolding buyer_task_def
  by (intro traced_bnd traced_lift traced_case_option traced_ret traced_sendEmail) simp_all

lemma traced_order_case [intro!]:
  assumes "\<And>c. store_or_mail c \<Longrightarrow> P c"
  shows "traced P (order_case env k event)"
  unfolding order_case_def
  by (intro traced_bnd traced_lift traced_fetchUserDetails traced_Promise_all
        list_all_async_map_from traced_seller_task traced_buyer_task assms) simp_all

lemma traced_handleOrderEvents:
  assumes "\<And>c. store_or_mail c \<Longrightarrow> P c"
  shows "traced P (handleOrderEvents env event)"
  unfolding handleOrderEvents_def
  by (intro traced_try_catch traced_bnd traced_lift traced_if traced_order_case traced_ret assms)

lemma traced_handleAuthEvents:
  assumes "\<And>c. store_or_mail c \<Longrightarrow> P c"
  shows "traced P (handleAuthEvents env event)"
  unfolding handleAuthEvents_def
  by (intro traced_try_catch traced_bnd traced_lift traced_if traced_fetchUserDetails
        traced_case_option traced_sendEmail traced_ret assms) simp_all

lemma traced_handleProductEvents:
  assumes "\<And>c. store_or_mail c \<Longrightarrow> P c"
  shows "traced P (handleProductEvents env event)"
  unfolding handleProductEvents_def if_type_def product_created_def product_updated_def
    product_deleted_def
  by (intro traced_try_catch traced_bnd traced_lift traced_if traced_fetchUserDetails
        traced_case_option traced_sendEmail traced_ret assms) simp_all

lemma traced_syncUserData:
  assumes "\<And>c. store_or_mail c \<Longrightarrow> P c"
  shows "traced P (syncUserData env event)"
  unfolding syncUserData_def
  by (intro traced_try_catch traced_bnd traced_lift traced_User_findOneAndUpdate traced_ret assms)
    simp_all

subsection \<open>The per-message callback\<close>

lemma try_catch_unit: "fst (try_catch m (\<lambda>error. ret ()) w) = Inr ()"
  by (cases "m w"; cases "fst (m w)") (auto simp: try_catch_def ret_def)

lemma handler_fulfils: "fst (handler_of env q event w) = Inr ()"
  by (cases q)
    (simp_all add: handleProductEvents_def handleOrderEvents_def handleAuthEvents_def
       syncUserData_def try_catch_unit)

lemma traced_handler_of: "traced store_or_mail (handler_of env q event)"
  by (cases q)
    (simp_all add: traced_handleProductEvents traced_handleOrderEvents traced_handleAuthEvents
       traced_syncUserData)

lemma consumeQueue_decoded:
  assumes "JSON_parse env (content msg) = Inr event" and "fst (handler event w) = Inr ()"
  shows "consumeQueue env handler msg w =
           (Inr (), (snd (handler event w))\<lparr>calls := calls (snd (handler event w)) @ [Ack]\<rparr>)"
  using assms by (cases "handler event w") (simp add: consumeQueue_def bnd_def lift_def try_catch_def emit_def)

lemma consumeQueue_undecoded:
  assumes "JSON_parse env (content msg) = Inl e"
  shows "consumeQueue env handler msg w = (Inl e, w)"
  using assms by (simp add: consumeQueue_def bnd_def lift_def)

text \<open>
  C3: every handler (product, order, auth, user sync) catches all of its own errors and
  returns normally, so a message whose body decodes is acknowledged: the callback is
  fulfilled, and what it adds to the calls of the handler is \<open>Ack\<close> alone; no
  \<open>Nack\<close> is issued, whatever the lookups, sends and upserts answer.
\<close>

theorem decoded_message_is_acked:
  assumes "JSON_parse env (content msg) = Inr event"
  shows "fst (handler_of env q event w) = Inr ()
       \<and> fst (consumeQueue env (handler_of env q) msg w) = Inr ()
       \<and> (\<exists>cs. calls (snd (consumeQueue env (handler_of env q) msg w)) = calls w @ cs @ [Ack]
                \<and> list_all store_or_mail cs)"
proof -
  have h: "fst (handler_of env q event w) = Inr ()" by (rule handler_fulfils)
  have c: "consumeQueue env (handler_of env q) msg w =
           (Inr (), (snd (handler_of env q event w))\<lparr>calls := calls (snd (handler_of env q event w)) @ [Ack]\<rparr>)"
    using consumeQueue_decoded[of env msg event "handler_of env q" w] assms h by simp
  have t: "traced store_or_mail (handler_of env q event)" by (rule traced_handler_of)
  have "calls (snd (handler_of env q event w)) = calls w @ calls (snd (handler_of env q event (reset w)))"
    by (subst tracedD(1)[OF t, of w]) simp
  moreover have "list_all store_or_mail (calls (snd (handler_of env q event (reset w))))"
    by (rule tracedD(2)[OF t])
  ultimately show ?thesis using h c by simp
qed

theorem decoded_message_is_acked_witness:
  "JSON_parse mail_fault_env (content \<lparr>content = order_body ''order_placed''\<rparr>)
     = Inr (order_event ''order_placed'')
   \<and> fst (consumeQueue mail_fault_env (handler_of mail_fault_env Order_events_for_notifications)
             \<lparr>content = order_body ''order_placed''\<rparr> sample_world) = Inr ()"
proof -
  have h: "JSON_parse mail_fault_env (content \<lparr>content = order_body ''order_placed''\<rparr>)
             = Inr (order_event ''order_placed'')"
    by (simp add: mail_fault_env_def sample_env_def sample_parse_def)
  show ?thesis
    using h decoded_message_is_acked[OF h, of Order_events_for_notifications sample_world]
    by simp
qed

text \<open>
  C2: a body that is not valid JSON. The claim has the message rejected without requeue;
  the decoding stands before the \<^verbatim>\<open>try\<close>, so the callback rejects with the
  decoder's error and the message is neither acknowledged nor rejected. No handler runs: the
  state is the one before.
\<close>

theorem malformed_body_neither_acked_nor_rejected:
  assumes "JSON_parse env (content msg) = Inl e"
  shows "consumeQueue env handler msg w = (Inl e, w)"
  using assms by (simp add: consumeQueue_def bnd_def lift_def)

theorem malformed_body_neither_acked_nor_rejected_witness:
  "JSON_parse sample_env (content \<lparr>content = malformed_body\<rparr>) = Inl SyntaxError
   \<and> consumeQueue sample_env (handleOrderEvents sample_env) \<lparr>content = malformed_body\<rparr> sample_world
       = (Inl SyntaxError, sample_world)"
proof -
  have h: "JSON_parse sample_env (content \<lparr>content = malformed_body\<rparr>) = Inl SyntaxError"
    by (simp add: sample_env_def sample_parse_def malformed_body_def order_body_def
          sold_out_body_def sync_body_def)
  show ?thesis
    using h malformed_body_neither_acked_nor_rejected[OF h, of "handleOrderEvents sample_env" sample_world]
    by simp
qed

lemma get_prop_own: "\<not> nullish v \<Longrightarrow> get_prop v p = Inr (own_prop v p)"
  by (cases v) (simp_all add: own_prop_def)

lemma log_line:
  "try_catch (bnd m (\<lambda>_. bnd (lift r) (\<lambda>_. ret ()))) (\<lambda>error. ret ())
     = try_catch m (\<lambda>error. ret ())"
proof
  fix w
  show "try_catch (bnd m (\<lambda>_. bnd (lift r) (\<lambda>_. ret ()))) (\<lambda>error. ret ()) w
          = try_catch m (\<lambda>error. ret ()) w"
    by (cases "m w"; cases "fst (m w)"; cases r)
      (auto simp: try_catch_def bnd_def lift_def ret_def)
qed

lemma syncUserData_run:
  assumes "\<not> nullish event"
  shows "syncUserData env event =
           try_catch
             (User_findOneAndUpdate env (own_prop event ''id'')
                \<lparr>upd_username = own_prop event ''username'', upd_email = own_prop event ''email'',
                 upd_role = own_prop event ''role''\<rparr>)
             (\<lambda>error. ret ())"
proof -
  have "syncUserData env event =
          try_catch
            (bnd (User_findOneAndUpdate env (own_prop event ''id'')
                    \<lparr>upd_username = own_prop event ''username'', upd_email = own_prop event ''email'',
                     upd_role = own_prop event ''role''\<rparr>)
               (\<lambda>_. bnd (lift (template [Text ''User data synced: '', Sub (Inr (own_prop event ''id''))]))
                      (\<lambda>_. ret ())))
            (\<lambda>error. ret ())"
    by (simp add: syncUserData_def get_prop_own[OF assms] bnd_def lift_def)
  then show ?thesis by (simp only: log_line)
qed

text \<open>
  C4, as amended: on the \<^verbatim>\<open>user_data_sync\<close> queue a failure of the upsert is caught inside
  \<^verbatim>\<open>syncUserData\<close>; the handler returns normally and the message is acknowledged,
  not rejected.
\<close>

theorem store_failure_is_acked:
  assumes "JSON_parse env (content msg) = Inr event"
      and "\<not> nullish event"
      and "findOneAndUpdate_fault env (own_prop event ''id'')
             \<lparr>upd_username = own_prop event ''username'', upd_email = own_prop event ''email'',
              upd_role = own_prop event ''role''\<rparr> = Some e"
  shows "consumeQueue env (syncUserData env) msg w =
           (Inr (), w\<lparr>calls := calls w @
              [FindOneAndUpdate (own_prop event ''id'')
                 \<lparr>upd_username = own_prop event ''username'', upd_email = own_prop event ''email'',
                  upd_role = own_prop event ''role''\<rparr>, Ack]\<rparr>)"
  using assms
  by (simp add: consumeQueue_def syncUserData_run User_findOneAndUpdate_def bnd_def lift_def
        try_catch_def emit_def ret_def)

theorem store_failure_is_acked_witness:
  "JSON_parse store_fault_env (content \<lparr>content = sync_body\<rparr>) = Inr sync_event
   \<and> \<not> nullish sync_event
   \<and> findOneAndUpdate_fault store_fault_env (own_prop sync_event ''id'')
        \<lparr>upd_username = own_prop sync_event ''username'', upd_email = own_prop sync_event ''email'',
         upd_role = own_prop sync_event ''role''\<rparr> = Some (StoreError ''connection lost'')
   \<and> consumeQueue store_fault_env (syncUserData store_fault_env) \<lparr>content = sync_body\<rparr> sample_world =
        (Inr (), sample_world\<lparr>calls :=
           [FindOneAndUpdate (JStr ''u1'')
              \<lparr>upd_username = JStr ''a'', upd_email = JStr ''a@x'', upd_role = JStr ''seller''\<rparr>,
            Ack]\<rparr>)"
proof -
  have h1: "JSON_parse store_fault_env (content \<lparr>content = sync_body\<rparr>) = Inr sync_event"
    by (simp add: store_fault_env_def sample_env_def sample_parse_def order_body_def
          sold_out_body_def sync_body_def)
  have h2: "\<not> nullish sync_event" by (simp add: sync_event_def)
  have h3: "findOneAndUpdate_fault store_fault_env (own_prop sync_event ''id'')
        \<lparr>upd_username = own_prop sync_event ''username'', upd_email = own_prop sync_event ''email'',
         upd_role = own_prop sync_event ''role''\<rparr> = Some (StoreError ''connection lost'')"
    by (simp add: store_fault_env_def sample_env_def)
  show ?thesis
    using h1 h2 h3 store_failure_is_acked[OF h1 h2 h3, of sample_world]
    by (simp add: sync_event_def own_prop_def sample_world_def)
qed

text \<open>C4 as stated fails: the upsert of the sample message is rejected by the store, and
  the calls made are the upsert and \<open>Ack\<close>; there is no \<open>Nack\<close>.\<close>

theorem store_failure_counterexample:
  "findOneAndUpdate_fault store_fault_env (JStr ''u1'')
      \<lparr>upd_username = JStr ''a'', upd_email = JStr ''a@x'', upd_role = JStr ''seller''\<rparr>
     = Some (StoreError ''connection lost'')
   \<and> calls (snd (consumeQueue store_fault_env (syncUserData store_fault_env)
                  \<lparr>content = sync_body\<rparr> sample_world))
     = [FindOneAndUpdate (JStr ''u1'')
          \<lparr>upd_username = JStr ''a'', upd_email = JStr ''a@x'', upd_role = JStr ''seller''\<rparr>,
        Ack]"
  by (simp add: store_fault_env_def sample_env_def sample_parse_def order_body_def
        sold_out_body_def sync_body_def sync_event_def sample_world_def
        consumeQueue_def syncUserData_def User_findOneAndUpdate_def bnd_def lift_def
        try_catch_def emit_def ret_def)


subsection \<open>Unknown type tags; the fields read by the user sync\<close>

lemma strict_eq_JStr: "strict_eq t (JStr s) = (t = JStr s)"
  by (cases t) auto

lemma unknown_type_product:
  assumes "list_all (\<lambda>s. get_prop event ''type'' \<noteq> Inr (JStr s)) (known_types Product_events_for_notifications)"
  shows "handleProductEvents env event w = (Inr (), w)"
  using assms
  by (cases "get_prop event ''type''")
    (auto simp: handleProductEvents_def if_type_def bnd_def lift_def try_catch_def ret_def strict_eq_JStr)

lemma unknown_type_order:
  assumes "list_all (\<lambda>s. get_prop event ''type'' \<noteq> Inr (JStr s)) (known_types Order_events_for_notifications)"
  shows "handleOrderEvents env event w = (Inr (), w)"
  using assms
  by (cases "get_prop event ''type''")
    (auto simp: handleOrderEvents_def bnd_def lift_def try_catch_def ret_def strict_eq_JStr
       split: sum.splits)

lemma unknown_type_auth:
  assumes "list_all (\<lambda>s. get_prop event ''type'' \<noteq> Inr (JStr s)) (known_types Auth_events)"
  shows "handleAuthEvents env event w = (Inr (), w)"
  using assms
  by (cases "get_prop event ''type''")
    (auto simp: handleAuthEvents_def bnd_def lift_def try_catch_def ret_def strict_eq_JStr)

text \<open>
  C8: on the product, order and auth queues an event whose type tag is none of those the
  queue's handler compares with makes the handler do nothing (no store call, no mail: the
  state after the handler is the state before) and return normally, and the message is
  acknowledged.
\<close>

theorem unknown_type_is_acked_without_action:
  assumes "JSON_parse env (content msg) = Inr event"
      and "q \<noteq> User_data_sync"
      and "list_all (\<lambda>s. get_prop event ''type'' \<noteq> Inr (JStr s)) (known_types q)"
  shows "handler_of env q event w = (Inr (), w)
       \<and> consumeQueue env (handler_of env q) msg w = (Inr (), w\<lparr>calls := calls w @ [Ack]\<rparr>)"
proof -
  have h: "handler_of env q event w = (Inr (), w)"
    using assms(2,3) unknown_type_product unknown_type_order unknown_type_auth
    by (cases q) simp_all
  then show ?thesis
    using consumeQueue_decoded[of env msg event "handler_of env q" w] assms(1) by simp
qed

theorem unknown_type_is_acked_without_action_witness:
  "JSON_parse sample_env (content \<lparr>content = order_body ''order_shipped''\<rparr>)
     = Inr (order_event ''order_shipped'')
   \<and> Order_events_for_notifications \<noteq> User_data_sync
   \<and> list_all (\<lambda>s. get_prop (order_event ''order_shipped'') ''type'' \<noteq> Inr (JStr s))
        (known_types Order_events_for_notifications)
   \<and> consumeQueue sample_env (handler_of sample_env Order_events_for_notifications)
        \<lparr>content = order_body ''order_shipped''\<rparr> sample_world
       = (Inr (), sample_world\<lparr>calls := [Ack]\<rparr>)"
proof -
  have h1: "JSON_parse sample_env (content \<lparr>content = order_body ''order_shipped''\<rparr>)
     = Inr (order_event ''order_shipped'')"
    by (simp add: sample_env_def sample_parse_def order_body_def)
  have h2: "Order_events_for_notifications \<noteq> User_data_sync" by simp
  have h3: "list_all (\<lambda>s. get_prop (order_event ''order_shipped'') ''type'' \<noteq> Inr (JStr s))
        (known_types Order_events_for_notifications)"
    by (simp add: order_event_def)
  show ?thesis
    using h1 h2 h3 unknown_type_is_acked_without_action[OF h1 h2 h3, of sample_world]
    by (simp add: sample_world_def)
qed

text \<open>
  C9: \<^verbatim>\<open>syncUserData\<close> takes id, username, email and role from the top level of the
  decoded object. For a message shaped as the \<^verbatim>\<open>{type, data}\<close> envelope of the other
  queues, whatever \<^verbatim>\<open>data\<close> holds, the upsert is keyed by \<^verbatim>\<open>undefined\<close> and
  carries \<^verbatim>\<open>undefined\<close> username, email and role.
\<close>

theorem syncUserData_reads_top_level:
  "calls (snd (syncUserData env (JObj kvs) w)) =
     calls w @ [FindOneAndUpdate (own_prop (JObj kvs) ''id'')
                  \<lparr>upd_username = own_prop (JObj kvs) ''username'',
                   upd_email = own_prop (JObj kvs) ''email'',
                   upd_role = own_prop (JObj kvs) ''role''\<rparr>]
   \<and> calls (snd (syncUserData env (JObj [(''type'', t), (''data'', d)]) w)) =
     calls w @ [FindOneAndUpdate JUndefined
                  \<lparr>upd_username = JUndefined, upd_email = JUndefined, upd_role = JUndefined\<rparr>]"
  by (simp add: syncUserData_run User_findOneAndUpdate_def own_prop_def bnd_def
        try_catch_def emit_def ret_def split: option.splits)

subsection \<open>The upsert; the remaining stock of a line item\<close>

lemma overwrite_idem: "overwrite new (overwrite new old) = overwrite new old"
  by (simp add: overwrite_def)

lemma apply_update_idem: "apply_update u (apply_update u d) = apply_update u d"
  by (simp add: apply_update_def overwrite_def)

lemma doc_id_apply_update: "doc_id (apply_update u d) = doc_id d"
  by (simp add: apply_update_def)

lemma upsert_idem: "upsertByExternalId i u (upsertByExternalId i u ds) = upsertByExternalId i u ds"
  by (induction ds) (simp_all add: apply_update_idem doc_id_apply_update apply_update_def overwrite_def)

lemma set_ids_upsert: "set (map doc_id (upsertByExternalId i u ds)) = insert i (set (map doc_id ds))"
  by (induction ds) (auto simp: doc_id_apply_update)

lemma distinct_upsert:
  "distinct (map doc_id ds) \<Longrightarrow> distinct (map doc_id (upsertByExternalId i u ds))"
proof (induction ds)
  case Nil
  show ?case by simp
next
  case (Cons d ds)
  have "doc_id d \<noteq> i \<Longrightarrow> doc_id d \<notin> set (map doc_id (upsertByExternalId i u ds))"
    using Cons.prems by (simp add: set_ids_upsert del: set_map)
  then show ?case using Cons by (auto simp: doc_id_apply_update)
qed

lemma filter_absent: "i \<notin> set (map doc_id ds) \<Longrightarrow> filter (\<lambda>d. doc_id d = i) ds = []"
  by (induction ds) auto

lemma one_record_after_upsert:
  "distinct (map doc_id ds) \<Longrightarrow> length (filter (\<lambda>d. doc_id d = i) (upsertByExternalId i u ds)) = 1"
proof (induction ds)
  case Nil
  show ?case by simp
next
  case (Cons d ds)
  show ?case
  proof (cases "doc_id d = i")
    case True
    then have "i \<notin> set (map doc_id ds)" using Cons.prems by auto
    then show ?thesis using True by (simp add: doc_id_apply_update filter_absent del: set_map)
  next
    case False
    then show ?thesis using Cons by simp
  qed
qed

lemma syncUserData_applied:
  assumes "\<not> nullish event"
      and "findOneAndUpdate_fault env (own_prop event ''id'')
             \<lparr>upd_username = own_prop event ''username'', upd_email = own_prop event ''email'',
              upd_role = own_prop event ''role''\<rparr> = None"
  shows "users (snd (syncUserData env event w)) =
           upsertByExternalId (own_prop event ''id'')
             \<lparr>upd_username = own_prop event ''username'', upd_email = own_prop event ''email'',
              upd_role = own_prop event ''role''\<rparr> (users w)"
  using assms
  by (simp add: syncUserData_run User_findOneAndUpdate_def bnd_def try_catch_def emit_def)

text \<open>
  C7: applying the same \<^verbatim>\<open>user_data_sync\<close> event twice, the upserts succeeding, on a
  collection with at most one record per id: the collection after the second application is
  the one after the first (so username, email and role of every record are the same), and it
  holds exactly one record with the event's id.
\<close>

theorem syncUserData_idempotent:
  assumes "\<not> nullish event"
      and "findOneAndUpdate_fault env (own_prop event ''id'')
             \<lparr>upd_username = own_prop event ''username'', upd_email = own_prop event ''email'',
              upd_role = own_prop event ''role''\<rparr> = None"
      and "distinct (map doc_id (users w))"
  shows "users (snd (syncUserData env event (snd (syncUserData env event w))))
           = users (snd (syncUserData env event w))
       \<and> length (filter (\<lambda>d. doc_id d = own_prop event ''id'')
                   (users (snd (syncUserData env event (snd (syncUserData env event w)))))) = 1"
  using assms by (simp add: syncUserData_applied upsert_idem one_record_after_upsert)

theorem syncUserData_idempotent_witness:
  "\<not> nullish sync_event
   \<and> findOneAndUpdate_fault sample_env (own_prop sync_event ''id'')
        \<lparr>upd_username = own_prop sync_event ''username'', upd_email = own_prop sync_event ''email'',
         upd_role = own_prop sync_event ''role''\<rparr> = None
   \<and> distinct (map doc_id (users sample_world))
   \<and> users (snd (syncUserData sample_env sync_event (snd (syncUserData sample_env sync_event sample_world))))
        = users (snd (syncUserData sample_env sync_event sample_world))
   \<and> length (filter (\<lambda>d. doc_id d = JStr ''u1'')
        (users (snd (syncUserData sample_env sync_event (snd (syncUserData sample_env sync_event sample_world)))))) = 1"
proof -
  have h1: "\<not> nullish sync_event" by (simp add: sync_event_def)
  have h2: "findOneAndUpdate_fault sample_env (own_prop sync_event ''id'')
        \<lparr>upd_username = own_prop sync_event ''username'', upd_email = own_prop sync_event ''email'',
         upd_role = own_prop sync_event ''role''\<rparr> = None"
    by (simp add: sample_env_def)
  have h3: "distinct (map doc_id (users sample_world))"
    by (simp add: sample_world_def sample_users_def)
  have i: "own_prop sync_event ''id'' = JStr ''u1''" by (simp add: sync_event_def own_prop_def)
  show ?thesis
    using h1 h2 h3 syncUserData_idempotent[OF h1 h2 h3] unfolding i by blast
qed

lemma js_find_first_match:
  assumes "list_all (\<lambda>r. \<not> nullish r) rs"
      and "line_item event ''productIds'' index = Inr b"
  shows "js_find (\<lambda>product.
            bindE (get_prop product ''productId'') (\<lambda>a.
            bindE (line_item event ''productIds'' index) (\<lambda>b. Inr (strict_eq a b)))) rs
         = Inr (case find (\<lambda>r. strict_eq (own_prop r ''productId'') b) rs of
                  None \<Rightarrow> JUndefined | Some r \<Rightarrow> r)"
  using assms by (induction rs) (simp_all add: get_prop_own bindE_def)

lemma bindE_simps [simp]: "bindE (Inr x) f = f x" "bindE (Inl e) f = Inl e"
  by (simp_all add: bindE_def)

lemma find_remaining_first_match:
  assumes "get_prop event ''data'' = Inr data"
      and "get_prop data ''remainingQuantities'' = Inr (JArr records)"
      and "list_all (\<lambda>r. \<not> nullish r) records"
      and "line_item event ''productIds'' index = Inr productId"
  shows "find_remaining event index =
           Inr (case find (\<lambda>r. strict_eq (own_prop r ''productId'') productId) records of
                  None \<Rightarrow> JUndefined | Some r \<Rightarrow> own_prop r ''remainingQuantity'')"
proof -
  have step: "find_remaining event index =
      (let found = (case find (\<lambda>r. strict_eq (own_prop r ''productId'') productId) records of
                      None \<Rightarrow> JUndefined | Some r \<Rightarrow> r)
       in if nullish found then Inr JUndefined else get_prop found ''remainingQuantity'')"
    unfolding find_remaining_def
    by (simp only: assms(1) assms(2) bindE_simps as_array.simps
          js_find_first_match[OF assms(3,4)] Let_def)
  show ?thesis
  proof (cases "find (\<lambda>r. strict_eq (own_prop r ''productId'') productId) records")
    case None
    then show ?thesis using step by simp
  next
    case (Some r)
    then have "r \<in> set records" by (auto simp: find_Some_iff)
    then have "\<not> nullish r" using assms(3) by (simp add: list_all_iff)
    then show ?thesis using step Some by (simp add: get_prop_own)
  qed
qed

lemma interp_ok [simp]: "stringifiable v \<Longrightarrow> interp v = Inr (Interp v)"
  by (simp add: interp_def)

lemma fetchUserDetails_run:
  "fetchUserDetails env i w =
     (Inr (case findOne_fault env i of Some e \<Rightarrow> None
           | None \<Rightarrow> find (\<lambda>d. doc_id d = i) (users w)),
      w\<lparr>calls := calls w @ [FindOne i]\<rparr>)"
  by (simp add: fetchUserDetails_def User_findOne_def bnd_def lift_def try_catch_def emit_def
        ret_def throw_def interp_def split: option.splits)

subsection \<open>The order handler: a seller task that rejects\<close>

lemma reads_onlyI: "(\<And>w. users (snd (m w)) = users w) \<Longrightarrow> reads_only m"
  by (simp add: reads_only_def)

lemma reads_onlyD: "reads_only m \<Longrightarrow> users (snd (m w)) = users w"
  by (simp add: reads_only_def)

lemma reads_only_ret: "reads_only (ret x)"
  by (simp add: reads_only_def ret_def)

lemma reads_only_lift: "reads_only (lift r)"
  by (simp add: reads_only_def lift_def)

lemma reads_only_bnd:
  assumes "reads_only m" and "\<And>x. reads_only (f x)"
  shows "reads_only (bnd m f)"
proof (rule reads_onlyI)
  fix w
  show "users (snd (bnd m f w)) = users w"
    using reads_onlyD[OF assms(1), of w] reads_onlyD[OF assms(2)]
    by (cases "m w"; cases "fst (m w)") (auto simp: bnd_def)
qed

lemma reads_only_case_option:
  "reads_only a \<Longrightarrow> (\<And>x. reads_only (b x)) \<Longrightarrow> reads_only (case v of None \<Rightarrow> a | Some x \<Rightarrow> b x)"
  by (cases v) simp_all

lemma reads_only_fetchUserDetails: "reads_only (fetchUserDetails env i)"
  by (simp add: reads_only_def fetchUserDetails_run)

lemma reads_only_sendEmail: "reads_only (sendEmail env m)"
  by (simp add: reads_only_def sendEmail_def bnd_def emit_def split: option.splits)

lemma reads_only_seller_task: "reads_only (seller_task env k event sellerId index)"
  unfolding seller_task_def
  by (intro reads_only_bnd reads_only_fetchUserDetails reads_only_lift reads_only_case_option
        reads_only_ret reads_only_sendEmail)

lemma traced_result:
  assumes "traced P m" and "users w' = users w"
  shows "fst (m w') = fst (m w)"
  using tracedD(1)[OF assms(1), of w'] tracedD(1)[OF assms(1), of w] reset_eq[OF assms(2)]
  by (metis fst_conv)

lemma settle_all_results:
  assumes "list_all (traced P) ps" and "list_all reads_only ps"
  shows "fst (settle_all ps w) = map (\<lambda>p. fst (p w)) ps
       \<and> users (snd (settle_all ps w)) = users w"
  using assms
proof (induction ps arbitrary: w)
  case Nil
  show ?case by simp
next
  case (Cons p ps)
  from Cons.prems have p: "traced P p" "reads_only p"
    and ps: "list_all (traced P) ps" "list_all reads_only ps" by simp_all
  obtain r w1 where r: "p w = (r, w1)" by (cases "p w")
  have u1: "users w1 = users w" using reads_onlyD[OF p(2), of w] r by simp
  have ih: "fst (settle_all ps w1) = map (\<lambda>p. fst (p w1)) ps
       \<and> users (snd (settle_all ps w1)) = users w1"
    by (rule Cons.IH[OF ps])
  have "map (\<lambda>p. fst (p w1)) ps = map (\<lambda>p. fst (p w)) ps"
  proof (rule map_cong[OF refl])
    fix q assume "q \<in> set ps"
    then have "traced P q" using ps(1) by (simp add: list_all_iff)
    then show "fst (q w1) = fst (q w)" by (rule traced_result[OF _ u1])
  qed
  then show ?case using r ih u1 by (cases "settle_all ps w1") simp
qed

lemma first_rejection_Some:
  "Inl e \<in> set rs \<Longrightarrow> \<exists>e'. first_rejection rs = Some e'"
  by (induction rs rule: first_rejection.induct) auto

lemma nth_async_map_from:
  "i < length xs \<Longrightarrow> async_map_from j cb xs ! i = cb (xs ! i) (j + i)"
proof (induction xs arbitrary: i j)
  case Nil
  then show ?case by simp
next
  case (Cons x xs)
  then show ?case by (cases i) simp_all
qed

lemma length_async_map_from [simp]: "length (async_map_from j cb xs) = length xs"
  by (induction xs arbitrary: j) simp_all

lemma Promise_all_rejects:
  assumes "i < length sellerIds"
      and "fst (seller_task env k event (sellerIds ! i) i w) = Inl e"
      and "users w1 = users w"
  shows "\<exists>e'. Promise_all (async_map_from 0 (seller_task env k event) sellerIds) w1 =
           (Inl e', snd (settle_all (async_map_from 0 (seller_task env k event) sellerIds) w1))"
proof -
  let ?ps = "async_map_from 0 (seller_task env k event) sellerIds"
  have t: "list_all (traced (\<lambda>c. True)) ?ps"
    by (rule list_all_async_map_from) (rule traced_seller_task, simp)
  have ro: "list_all reads_only ?ps"
    by (rule list_all_async_map_from) (rule reads_only_seller_task)
  have f: "fst (settle_all ?ps w1) = map (\<lambda>p. fst (p w1)) ?ps"
    using settle_all_results[OF t ro, of w1] by simp
  have "?ps ! i = seller_task env k event (sellerIds ! i) i"
    using nth_async_map_from[OF assms(1), of 0] by simp
  moreover have "fst (seller_task env k event (sellerIds ! i) i w1) = Inl e"
    using traced_result[OF traced_seller_task assms(3), of "\<lambda>c. True"] assms(2) by simp
  ultimately have "fst ((?ps ! i) w1) = Inl e" by simp
  then have "Inl e \<in> set (map (\<lambda>p. fst (p w1)) ?ps)"
    using assms(1) by (metis (no_types, lifting) length_async_map_from length_map nth_map nth_mem)
  then obtain e' where "first_rejection (fst (settle_all ?ps w1)) = Some e'"
    using first_rejection_Some f by metis
  then show ?thesis
    by (cases "settle_all ?ps w1") (simp add: Promise_all_def)
qed

lemma handleOrderEvents_tag:
  assumes "get_prop event ''type'' = Inr (JStr (order_tag k))"
  shows "handleOrderEvents env event = try_catch (order_case env k event) (\<lambda>error. ret ())"
  using assms by (cases k) (simp_all add: handleOrderEvents_def bnd_def lift_def)

lemma settle_all_users:
  "users (snd (settle_all (async_map_from 0 (seller_task env k event) sellerIds) w)) = users w"
proof -
  let ?ps = "async_map_from 0 (seller_task env k event) sellerIds"
  have t: "list_all (traced (\<lambda>c. True)) ?ps"
    by (rule list_all_async_map_from) (rule traced_seller_task, simp)
  have ro: "list_all reads_only ?ps"
    by (rule list_all_async_map_from) (rule reads_only_seller_task)
  show ?thesis using settle_all_results[OF t ro, of w] by simp
qed

text \<open>
  C1, as amended: for every order event (placed, updated, deleted), when the seller task of
  some line item rejects (its send throws, or anything before it does), the join rejects,
  the error is caught inside \<^verbatim>\<open>handleOrderEvents\<close> and the handler returns normally:
  the message is acknowledged, not rejected. The calls made are those up to the settlement of
  the seller tasks, the mails of the sellers whose send succeeded among them, followed by
  \<open>Ack\<close>: the buyer mail is not sent. The User collection is unchanged.
\<close>

theorem seller_failure_is_acked:
  assumes "JSON_parse env (content msg) = Inr event"
      and "get_prop event ''type'' = Inr (JStr (order_tag k))"
      and "get_prop event ''data'' = Inr data"
      and "get_prop data ''sellerIds'' = Inr (JArr sellerIds)"
      and "i < length sellerIds"
      and "fst (seller_task env k event (sellerIds ! i) i w) = Inl e"
  shows "consumeQueue env (handleOrderEvents env) msg w =
           (Inr (),
            w\<lparr>calls :=
                 calls (snd (settle_all (async_map_from 0 (seller_task env k event) sellerIds)
                               (snd (fetchUserDetails env (own_prop data ''userId'') w))))
                 @ [Ack]\<rparr>)"
proof -
  let ?w1 = "snd (fetchUserDetails env (own_prop data ''userId'') w)"
  let ?ps = "async_map_from 0 (seller_task env k event) sellerIds"
  let ?w2 = "snd (settle_all ?ps ?w1)"
  have nn: "\<not> nullish data" using assms(4) by (cases data) simp_all
  have uid: "get_prop data ''userId'' = Inr (own_prop data ''userId'')"
    by (rule get_prop_own[OF nn])
  have u1: "users ?w1 = users w" by (simp add: fetchUserDetails_run)
  obtain e' where rej: "Promise_all ?ps ?w1 = (Inl e', ?w2)"
    using Promise_all_rejects[OF assms(5,6) u1] by blast
  have "order_case env k event w = (Inl e', ?w2)"
    using assms(3,4) uid rej
    by (simp add: order_case_def bnd_def lift_def fetchUserDetails_run)
  then have h: "handleOrderEvents env event w = (Inr (), ?w2)"
    by (simp add: handleOrderEvents_tag[OF assms(2)] try_catch_def ret_def)
  have u2: "users ?w2 = users w" using settle_all_users[of env k event sellerIds ?w1] u1 by simp
  have "?w2\<lparr>calls := calls ?w2 @ [Ack]\<rparr> = w\<lparr>calls := calls ?w2 @ [Ack]\<rparr>"
    using u2 by (cases ?w2, cases w) simp
  then show ?thesis
    using consumeQueue_decoded[of env msg event "handleOrderEvents env" w] assms(1) h by simp
qed

lemmas sample_defs = sample_env_def mail_fault_env_def store_fault_env_def sample_parse_def
  sample_world_def sample_users_def order_event_def

lemmas run_defs = consumeQueue_def handleOrderEvents_def order_case_def seller_task_def
  buyer_task_def Promise_all_def fetchUserDetails_run bnd_def lift_def try_catch_def ret_def
  emit_def sendEmail_def line_item_def find_remaining_def indexed_remaining_def productList_def
  titles_joined_def sellerMessage_def seller_plain_def buyer_item_def interp_def
  join_element_def stock_value_def js_or_def

theorem seller_failure_is_acked_witness:
  "JSON_parse mail_fault_env (content \<lparr>content = order_body ''order_placed''\<rparr>)
     = Inr (order_event ''order_placed'')
   \<and> get_prop (order_event ''order_placed'') ''type'' = Inr (JStr (order_tag Placed))
   \<and> get_prop (order_event ''order_placed'') ''data''
       = Inr (own_prop (order_event ''order_placed'') ''data'')
   \<and> get_prop (own_prop (order_event ''order_placed'') ''data'') ''sellerIds''
       = Inr (JArr [JStr ''s1'', JStr ''s2''])
   \<and> 1 < length [JStr ''s1'', JStr ''s2'']
   \<and> fst (seller_task mail_fault_env Placed (order_event ''order_placed'')
             ([JStr ''s1'', JStr ''s2''] ! 1) 1 sample_world)
       = Inl (DeliveryError ''mailbox unavailable'')
   \<and> fst (consumeQueue mail_fault_env (handleOrderEvents mail_fault_env)
             \<lparr>content = order_body ''order_placed''\<rparr> sample_world) = Inr ()"
proof -
  have h1: "JSON_parse mail_fault_env (content \<lparr>content = order_body ''order_placed''\<rparr>)
     = Inr (order_event ''order_placed'')"
    by (simp add: mail_fault_env_def sample_env_def sample_parse_def)
  have h2: "get_prop (order_event ''order_placed'') ''type'' = Inr (JStr (order_tag Placed))"
    by (simp add: order_event_def)
  have h3: "get_prop (order_event ''order_placed'') ''data''
       = Inr (own_prop (order_event ''order_placed'') ''data'')"
    by (simp add: order_event_def own_prop_def)
  have h4: "get_prop (own_prop (order_event ''order_placed'') ''data'') ''sellerIds''
       = Inr (JArr [JStr ''s1'', JStr ''s2''])"
    by (simp add: order_event_def own_prop_def)
  have h5: "1 < length [JStr ''s1'', JStr ''s2'']" by simp
  have h6: "fst (seller_task mail_fault_env Placed (order_event ''order_placed'')
             ([JStr ''s1'', JStr ''s2''] ! 1) 1 sample_world)
       = Inl (DeliveryError ''mailbox unavailable'')"
    by (simp add: sample_defs run_defs)
  show ?thesis
    using h1 h2 h3 h4 h5 h6 seller_failure_is_acked[OF h1 h2 h3 h4 h5 h6]
    by simp
qed

text \<open>C1 as stated fails: in the sample order the send to the second seller throws, and
  the callback is fulfilled with \<open>Ack\<close> among its calls and no \<open>Nack\<close>.\<close>

theorem seller_failure_counterexample:
  "fst (seller_task mail_fault_env Placed (order_event ''order_placed'') (JStr ''s2'') 1
          sample_world)
     = Inl (DeliveryError ''mailbox unavailable'')
   \<and> fst (consumeQueue mail_fault_env (handleOrderEvents mail_fault_env)
             \<lparr>content = order_body ''order_placed''\<rparr> sample_world) = Inr ()
   \<and> Ack \<in> set (calls (snd (consumeQueue mail_fault_env (handleOrderEvents mail_fault_env)
                               \<lparr>content = order_body ''order_placed''\<rparr> sample_world)))
   \<and> Nack False False \<notin>
       set (calls (snd (consumeQueue mail_fault_env (handleOrderEvents mail_fault_env)
                          \<lparr>content = order_body ''order_placed''\<rparr> sample_world)))"
  by (simp add: sample_defs run_defs)



subsection \<open>The order handler: every seller task is run\<close>

lemma resolved_SomeD:
  assumes "resolved env w i = Some s"
  shows "findOne_fault env i = None" and "find (\<lambda>d. doc_id d = i) (users w) = Some s"
  using assms by (auto simp: resolved_def split: option.splits)

lemma seller_task_sends:
  assumes "resolved env w sellerId = Some s"
      and "remainingQuantity_of k event index = Inr remainingQuantity"
      and "line_item event ''titles'' index = Inr title"
      and "line_item event ''quantities'' index = Inr quantity"
      and "stringifiable (doc_username s)"
      and "stringifiable title"
      and "stringifiable quantity"
      and "stringifiable (stock_value remainingQuantity)"
  shows "seller_task env k event sellerId index w =
           (case sendEmail_fault env
                   \<lparr>rcpt = doc_email s, subject = seller_subject k,
                    plain = [Lit (seller_plain_begin k), Interp title, Lit (seller_plain_end k)],
                    html = [Lit ''Hi '', Interp (doc_username s), Lit (seller_intro k),
                            Lit ''Product: '', Interp title,
                            Lit (seller_quantity_label k), Interp quantity,
                            Lit ''Remaining Stock: '', stock_shown remainingQuantity]\<rparr> of
              Some e \<Rightarrow> Inl e | None \<Rightarrow> Inr (),
            w\<lparr>calls := calls w @
               [FindOne sellerId,
                SendEmail
                  \<lparr>rcpt = doc_email s, subject = seller_subject k,
                   plain = [Lit (seller_plain_begin k), Interp title, Lit (seller_plain_end k)],
                   html = [Lit ''Hi '', Interp (doc_username s), Lit (seller_intro k),
                           Lit ''Product: '', Interp title,
                           Lit (seller_quantity_label k), Interp quantity,
                           Lit ''Remaining Stock: '', stock_shown remainingQuantity]\<rparr>]\<rparr>)"
proof -
  have m: "sellerMessage k event s index remainingQuantity =
             Inr [Lit ''Hi '', Interp (doc_username s), Lit (seller_intro k),
                  Lit ''Product: '', Interp title,
                  Lit (seller_quantity_label k), Interp quantity,
                  Lit ''Remaining Stock: '', stock_shown remainingQuantity]"
    using assms(3-8) by (simp add: sellerMessage_def stock_shown_def)
  have p: "seller_plain k event index =
             Inr [Lit (seller_plain_begin k), Interp title, Lit (seller_plain_end k)]"
    using assms(3,6) by (simp add: seller_plain_def)
  show ?thesis
    using resolved_SomeD[OF assms(1)] assms(2) m p
    by (simp add: seller_task_def fetchUserDetails_run bnd_def lift_def sendEmail_def emit_def
          split: option.splits)
qed

lemma settle_all_calls:
  assumes "list_all (traced P) ps" and "list_all reads_only ps"
  shows "calls (snd (settle_all ps w)) =
           calls w @ concat (map (\<lambda>p. calls (snd (p (reset w)))) ps)"
  using assms
proof (induction ps arbitrary: w)
  case Nil
  show ?case by simp
next
  case (Cons p ps)
  from Cons.prems have p: "traced P p" "reads_only p"
    and ps: "list_all (traced P) ps" "list_all reads_only ps" by simp_all
  obtain r w1 where r: "p w = (r, w1)" by (cases "p w")
  have c1: "calls w1 = calls w @ calls (snd (p (reset w)))"
    using tracedD(1)[OF p(1), of w] r by auto
  have u1: "users w1 = users w" using reads_onlyD[OF p(2), of w] r by simp
  have rs: "reset w1 = reset w" by (rule reset_eq[OF u1])
  have ih: "calls (snd (settle_all ps w1)) =
              calls w1 @ concat (map (\<lambda>p. calls (snd (p (reset w1)))) ps)"
    by (rule Cons.IH[OF ps])
  show ?case using r ih c1 rs by (cases "settle_all ps w1") simp
qed

lemma snd_Promise_all: "snd (Promise_all ps w) = snd (settle_all ps w)"
  by (cases "settle_all ps w") (simp add: Promise_all_def split: option.splits)

lemma snd_try_catch_ret: "snd (try_catch m (\<lambda>error. ret ()) w) = snd (m w)"
  by (cases "m w"; cases "fst (m w)") (auto simp: try_catch_def ret_def)

lemma calls_bnd_traced:
  assumes "\<And>x. traced P (f x)"
  shows "\<exists>post. calls (snd (bnd m f w)) = calls (snd (m w)) @ post"
proof (cases "m w")
  case (Pair r w1)
  show ?thesis
  proof (cases r)
    case (Inl e)
    then show ?thesis using Pair by (simp add: bnd_def)
  next
    case (Inr x)
    have "calls (snd (f x w1)) = calls w1 @ calls (snd (f x (reset w1)))"
      by (subst tracedD(1)[OF assms, of x w1]) simp
    then show ?thesis using Pair Inr by (simp add: bnd_def)
  qed
qed

lemma concat_nth_split:
  assumes "i < length L"
  shows "concat L = concat (take i L) @ L ! i @ concat (drop (Suc i) L)"
proof -
  have "concat L = concat (take i L @ L ! i # drop (Suc i) L)"
    by (rule arg_cong[where f = concat, OF id_take_nth_drop[OF assms]])
  also have "\<dots> = concat (take i L) @ L ! i @ concat (drop (Suc i) L)" by simp
  finally show ?thesis .
qed

lemma order_event_runs_seller_task:
  assumes "get_prop event ''type'' = Inr (JStr (order_tag k))"
      and "get_prop event ''data'' = Inr data"
      and "get_prop data ''sellerIds'' = Inr (JArr sellerIds)"
      and "i < length sellerIds"
  shows "\<exists>pre post. calls (snd (handleOrderEvents env event w)) =
           calls w @ pre @ calls (snd (seller_task env k event (sellerIds ! i) i (reset w))) @ post"
proof -
  let ?uid = "own_prop data ''userId''"
  let ?w1 = "snd (fetchUserDetails env ?uid w)"
  let ?ud = "case findOne_fault env ?uid of Some e \<Rightarrow> None
             | None \<Rightarrow> find (\<lambda>d. doc_id d = ?uid) (users w)"
  let ?ps = "async_map_from 0 (seller_task env k event) sellerIds"
  let ?L = "map (\<lambda>p. calls (snd (p (reset w)))) ?ps"
  have nn: "\<not> nullish data" using assms(3) by (cases data) simp_all
  have uid: "get_prop data ''userId'' = Inr ?uid" by (rule get_prop_own[OF nn])
  have c1: "calls ?w1 = calls w @ [FindOne ?uid]" by (simp add: fetchUserDetails_run)
  have rs: "reset ?w1 = reset w" by (rule reset_eq) (simp add: fetchUserDetails_run)
  have t: "list_all (traced (\<lambda>c. True)) ?ps"
    by (rule list_all_async_map_from) (rule traced_seller_task, simp)
  have ro: "list_all reads_only ?ps"
    by (rule list_all_async_map_from) (rule reads_only_seller_task)
  have c2: "calls (snd (settle_all ?ps ?w1)) = calls ?w1 @ concat ?L"
    using settle_all_calls[OF t ro, of ?w1] rs by simp
  have li: "i < length ?L" using assms(4) by simp
  have Li: "?L ! i = calls (snd (seller_task env k event (sellerIds ! i) i (reset w)))"
    using assms(4) nth_async_map_from[OF assms(4), of 0 "seller_task env k event"] by simp
  have "concat ?L = concat (take i ?L)
       @ calls (snd (seller_task env k event (sellerIds ! i) i (reset w)))
       @ concat (drop (Suc i) ?L)"
    by (subst concat_nth_split[OF li]) (simp only: Li)
  then have c3: "calls (snd (Promise_all ?ps ?w1)) =
      calls w @ (FindOne ?uid # concat (take i ?L))
       @ calls (snd (seller_task env k event (sellerIds ! i) i (reset w)))
       @ concat (drop (Suc i) ?L)"
    using c1 c2 by (simp add: snd_Promise_all)
  have oc: "order_case env k event w =
      bnd (Promise_all ?ps) (\<lambda>_. buyer_task env k event ?ud) ?w1"
    using assms(2,3) uid
    by (simp add: order_case_def bnd_def lift_def fetchUserDetails_run)
  obtain post where "calls (snd (order_case env k event w)) = calls (snd (Promise_all ?ps ?w1)) @ post"
  proof -
    have tb: "\<And>x::unit. traced (\<lambda>c. True) (buyer_task env k event ?ud)"
      by (rule traced_buyer_task) simp
    from calls_bnd_traced[of "\<lambda>c. True" "\<lambda>_. buyer_task env k event ?ud" "Promise_all ?ps" ?w1, OF tb]
    obtain post where "calls (snd (bnd (Promise_all ?ps) (\<lambda>_. buyer_task env k event ?ud) ?w1))
        = calls (snd (Promise_all ?ps ?w1)) @ post" by blast
    then show ?thesis using oc that by simp
  qed
  then have "calls (snd (handleOrderEvents env event w)) =
      calls w @ (FindOne ?uid # concat (take i ?L))
       @ calls (snd (seller_task env k event (sellerIds ! i) i (reset w)))
       @ (concat (drop (Suc i) ?L) @ post)"
    using c3 by (simp add: handleOrderEvents_tag[OF assms(1)] snd_try_catch_ret)
  then show ?thesis by blast
qed


text \<open>
  C10: an \<^verbatim>\<open>order_placed\<close> or \<^verbatim>\<open>order_updated\<close> event, and a line item whose
  seller resolves and whose title, quantity and seller name convert to text. When the first
  record of \<^verbatim>\<open>remainingQuantities\<close> matching the item's product id has the numeric
  \<^verbatim>\<open>remainingQuantity\<close> \<open>n\<close>, the handler sends that seller a mail whose stock
  line shows \<^verbatim>\<open>Unknown\<close> if \<open>n\<close> is 0 and \<open>n\<close> otherwise, whatever becomes of
  the other line items.
\<close>

theorem zero_remaining_quantity_shown_as_unknown:
  assumes "k = Placed \<or> k = Updated"
      and "get_prop event ''type'' = Inr (JStr (order_tag k))"
      and "get_prop event ''data'' = Inr data"
      and "get_prop data ''sellerIds'' = Inr (JArr sellerIds)"
      and "get_prop data ''remainingQuantities'' = Inr (JArr records)"
      and "list_all (\<lambda>r. \<not> nullish r) records"
      and "index < length sellerIds"
      and "line_item event ''productIds'' index = Inr productId"
      and "find (\<lambda>r. strict_eq (own_prop r ''productId'') productId) records = Some r"
      and "own_prop r ''remainingQuantity'' = JNum n"
      and "resolved env w (sellerIds ! index) = Some s"
      and "line_item event ''titles'' index = Inr title"
      and "line_item event ''quantities'' index = Inr quantity"
      and "stringifiable (doc_username s)"
      and "stringifiable title"
      and "stringifiable quantity"
  shows "remainingQuantity_of k event index = Inr (JNum n)
       \<and> SendEmail
           \<lparr>rcpt = doc_email s, subject = seller_subject k,
            plain = [Lit (seller_plain_begin k), Interp title, Lit (seller_plain_end k)],
            html = [Lit ''Hi '', Interp (doc_username s), Lit (seller_intro k),
                    Lit ''Product: '', Interp title,
                    Lit (seller_quantity_label k), Interp quantity,
                    Lit ''Remaining Stock: '',
                    Interp (if n = 0 then JStr ''Unknown'' else JNum n)]\<rparr>
         \<in> set (drop (length (calls w)) (calls (snd (handleOrderEvents env event w))))"
proof -
  have "find_remaining event index = Inr (JNum n)"
    using find_remaining_first_match[OF assms(3,5,6,8)] assms(9,10) by simp
  then have rq: "remainingQuantity_of k event index = Inr (JNum n)"
    using assms(1) by auto
  have sv: "stock_value (JNum n) = (if n = 0 then JStr ''Unknown'' else JNum n)"
    by (simp add: stock_value_def js_or_def)
  have r: "resolved env (reset w) (sellerIds ! index) = Some s"
    using assms(11) by (simp add: resolved_def split: option.splits)
  have st: "stringifiable (stock_value (JNum n))" by (simp add: sv)
  have "SendEmail
           \<lparr>rcpt = doc_email s, subject = seller_subject k,
            plain = [Lit (seller_plain_begin k), Interp title, Lit (seller_plain_end k)],
            html = [Lit ''Hi '', Interp (doc_username s), Lit (seller_intro k),
                    Lit ''Product: '', Interp title,
                    Lit (seller_quantity_label k), Interp quantity,
                    Lit ''Remaining Stock: '',
                    Interp (if n = 0 then JStr ''Unknown'' else JNum n)]\<rparr>
         \<in> set (calls (snd (seller_task env k event (sellerIds ! index) index (reset w))))"
    by (subst seller_task_sends[OF r rq assms(12,13,14,15,16) st])
       (simp add: stock_shown_def sv)
  moreover obtain pre post where "calls (snd (handleOrderEvents env event w)) =
      calls w @ pre @ calls (snd (seller_task env k event (sellerIds ! index) index (reset w))) @ post"
    using order_event_runs_seller_task[OF assms(2,3,4,7)] by blast
  ultimately show ?thesis using rq by simp
qed

theorem zero_remaining_quantity_shown_as_unknown_witness:
  "(Placed = Placed \<or> Placed = Updated)
   \<and> get_prop sold_out_event ''type'' = Inr (JStr (order_tag Placed))
   \<and> get_prop sold_out_event ''data'' = Inr (own_prop sold_out_event ''data'')
   \<and> get_prop (own_prop sold_out_event ''data'') ''sellerIds'' = Inr (JArr [JStr ''s1''])
   \<and> get_prop (own_prop sold_out_event ''data'') ''remainingQuantities''
        = Inr (JArr [JObj [(''productId'', JStr ''p1''), (''remainingQuantity'', JNum 0)]])
   \<and> list_all (\<lambda>r. \<not> nullish r) [JObj [(''productId'', JStr ''p1''), (''remainingQuantity'', JNum 0)]]
   \<and> 0 < length [JStr ''s1'']
   \<and> line_item sold_out_event ''productIds'' 0 = Inr (JStr ''p1'')
   \<and> find (\<lambda>r. strict_eq (own_prop r ''productId'') (JStr ''p1''))
        [JObj [(''productId'', JStr ''p1''), (''remainingQuantity'', JNum 0)]]
        = Some (JObj [(''productId'', JStr ''p1''), (''remainingQuantity'', JNum 0)])
   \<and> own_prop (JObj [(''productId'', JStr ''p1''), (''remainingQuantity'', JNum 0)]) ''remainingQuantity''
        = JNum 0
   \<and> resolved sample_env sample_world ([JStr ''s1''] ! 0) = Some (sample_users ! 1)
   \<and> line_item sold_out_event ''titles'' 0 = Inr (JStr ''Lamp'')
   \<and> line_item sold_out_event ''quantities'' 0 = Inr (JNum 2)
   \<and> stringifiable (doc_username (sample_users ! 1))
   \<and> stringifiable (JStr ''Lamp'')
   \<and> stringifiable (JNum 2)
   \<and> SendEmail
        \<lparr>rcpt = JStr ''bob@x'', subject = ''New Order Received'',
         plain = [Lit (seller_plain_begin Placed), Interp (JStr ''Lamp''),
                  Lit (seller_plain_end Placed)],
         html = [Lit ''Hi '', Interp (JStr ''bob''),
                 Lit ''A new order has been placed for your product:'',
                 Lit ''Product: '', Interp (JStr ''Lamp''),
                 Lit ''Quantity Ordered: '', Interp (JNum 2),
                 Lit ''Remaining Stock: '', Interp (JStr ''Unknown'')]\<rparr>
       \<in> set (calls (snd (handleOrderEvents sample_env sold_out_event sample_world)))"
proof -
  have h1: "Placed = Placed \<or> Placed = Updated" by simp
  have h2: "get_prop sold_out_event ''type'' = Inr (JStr (order_tag Placed))"
    by (simp add: sold_out_event_def)
  have h3: "get_prop sold_out_event ''data'' = Inr (own_prop sold_out_event ''data'')"
    by (simp add: sold_out_event_def own_prop_def)
  have h4: "get_prop (own_prop sold_out_event ''data'') ''sellerIds'' = Inr (JArr [JStr ''s1''])"
    by (simp add: sold_out_event_def own_prop_def)
  have h5: "get_prop (own_prop sold_out_event ''data'') ''remainingQuantities''
        = Inr (JArr [JObj [(''productId'', JStr ''p1''), (''remainingQuantity'', JNum 0)]])"
    by (simp add: sold_out_event_def own_prop_def)
  have h6: "list_all (\<lambda>r. \<not> nullish r) [JObj [(''productId'', JStr ''p1''), (''remainingQuantity'', JNum 0)]]"
    by simp
  have h7: "0 < length [JStr ''s1'']" by simp
  have h8: "line_item sold_out_event ''productIds'' 0 = Inr (JStr ''p1'')"
    by (simp add: sold_out_event_def line_item_def)
  have h9: "find (\<lambda>r. strict_eq (own_prop r ''productId'') (JStr ''p1''))
        [JObj [(''productId'', JStr ''p1''), (''remainingQuantity'', JNum 0)]]
        = Some (JObj [(''productId'', JStr ''p1''), (''remainingQuantity'', JNum 0)])"
    by (simp add: own_prop_def)
  have h10: "own_prop (JObj [(''productId'', JStr ''p1''), (''remainingQuantity'', JNum 0)]) ''remainingQuantity''
        = JNum 0"
    by (simp add: own_prop_def)
  have h11: "resolved sample_env sample_world ([JStr ''s1''] ! 0) = Some (sample_users ! 1)"
    by (simp add: resolved_def sample_env_def sample_world_def sample_users_def)
  have h12: "line_item sold_out_event ''titles'' 0 = Inr (JStr ''Lamp'')"
    by (simp add: sold_out_event_def line_item_def)
  have h13: "line_item sold_out_event ''quantities'' 0 = Inr (JNum 2)"
    by (simp add: sold_out_event_def line_item_def)
  have h14: "stringifiable (doc_username (sample_users ! 1))" by (simp add: sample_users_def)
  have h15: "stringifiable (JStr ''Lamp'')" by simp
  have h16: "stringifiable (JNum 2)" by simp
  have c: "SendEmail
        \<lparr>rcpt = JStr ''bob@x'', subject = ''New Order Received'',
         plain = [Lit (seller_plain_begin Placed), Interp (JStr ''Lamp''),
                  Lit (seller_plain_end Placed)],
         html = [Lit ''Hi '', Interp (JStr ''bob''),
                 Lit ''A new order has been placed for your product:'',
                 Lit ''Product: '', Interp (JStr ''Lamp''),
                 Lit ''Quantity Ordered: '', Interp (JNum 2),
                 Lit ''Remaining Stock: '', Interp (JStr ''Unknown'')]\<rparr>
       \<in> set (calls (snd (handleOrderEvents sample_env sold_out_event sample_world)))"
    using zero_remaining_quantity_shown_as_unknown[OF h1 h2 h3 h4 h5 h6 h7 h8 h9 h10 h11 h12 h13 h14 h15 h16]
    by (simp add: sample_users_def sample_world_def)
  show ?thesis using h1 h2 h3 h4 h5 h6 h7 h8 h9 h10 h11 h12 h13 h14 h15 h16 c by blast
qed

text \<open>
  C5: in the \<^verbatim>\<open>order_deleted\<close> block the stock of line item \<open>i\<close> is
  \<^verbatim>\<open>remainingQuantities[i]\<close>, the record at position \<open>i\<close> itself, where the two other
  blocks search the record by product id. For product ids p1, p2 and the single record
  (p2, 5): item 0 (p1) is shown the record of p2, and item 1 (p2) is shown
  \<^verbatim>\<open>Unknown\<close>; the search of the other blocks gives \<^verbatim>\<open>undefined\<close> for item 0 and 5
  for item 1.
\<close>

theorem order_deleted_stock_by_position:
  "remainingQuantity_of Deleted (order_event ''order_deleted'') 0
     = Inr (JObj [(''productId'', JStr ''p2''), (''remainingQuantity'', JNum 5)])
   \<and> stock_shown (JObj [(''productId'', JStr ''p2''), (''remainingQuantity'', JNum 5)])
     = Interp (JObj [(''productId'', JStr ''p2''), (''remainingQuantity'', JNum 5)])
   \<and> remainingQuantity_of Deleted (order_event ''order_deleted'') 1 = Inr JUndefined
   \<and> stock_shown JUndefined = Interp (JStr ''Unknown'')
   \<and> find_remaining (order_event ''order_deleted'') 0 = Inr JUndefined
   \<and> find_remaining (order_event ''order_deleted'') 1 = Inr (JNum 5)
   \<and> map (\<lambda>m. (rcpt m, last (html m)))
        (mails_sent (calls (snd (seller_task sample_env Deleted (order_event ''order_deleted'')
                                   (JStr ''s2'') 1 sample_world))))
     = [(JStr ''carol@x'', Interp (JStr ''Unknown''))]"
  by (simp add: order_event_def indexed_remaining_def find_remaining_def line_item_def
        stock_shown_def stock_value_def js_or_def seller_task_def fetchUserDetails_run bnd_def
        lift_def sendEmail_def emit_def sample_env_def sample_world_def sample_users_def
        sellerMessage_def seller_plain_def interp_def mails_sent_def ret_def)


subsection \<open>The order handler: the mails of a placed order\<close>

lemma fetchUserDetails_resolved:
  "fetchUserDetails env i w = (Inr (resolved env w i), w\<lparr>calls := calls w @ [FindOne i]\<rparr>)"
  by (simp add: fetchUserDetails_run resolved_def)

lemma resolved_same_users:
  "users (w'::world) = users (w::world) \<Longrightarrow> resolved env w' i = resolved env w i"
  by (simp add: resolved_def split: option.splits)

lemma resolved_in_users: "resolved env w i = Some s \<Longrightarrow> s \<in> set (users w)"
  by (auto simp: resolved_def find_Some_iff split: option.splits)

lemma all_stringifiable_nth: "all_stringifiable xs \<Longrightarrow> i < length xs \<Longrightarrow> stringifiable (xs ! i)"
proof (induction xs arbitrary: i)
  case Nil
  then show ?case by simp
next
  case (Cons x xs)
  then show ?case by (cases i) simp_all
qed

lemma settle_all_fulfilled:
  assumes "\<And>i (w'::world). i < length xs \<Longrightarrow> users w' = users w \<Longrightarrow>
             cb (xs ! i) (j + i) w' = (Inr (), w'\<lparr>calls := calls w' @ out (j + i)\<rparr>)"
  shows "settle_all (async_map_from j cb xs) w =
           (replicate (length xs) (Inr ()),
            w\<lparr>calls := calls w @ concat (map out [j..<j + length xs])\<rparr>)"
  using assms
proof (induction xs arbitrary: j w)
  case Nil
  show ?case by simp
next
  case (Cons x xs)
  have hd: "cb x j w = (Inr (), w\<lparr>calls := calls w @ out j\<rparr>)"
    using Cons.prems[of 0 w] by simp
  have tl: "settle_all (async_map_from (Suc j) cb xs) (w\<lparr>calls := calls w @ out j\<rparr>) =
           (replicate (length xs) (Inr ()),
            (w\<lparr>calls := calls w @ out j\<rparr>)\<lparr>calls := calls (w\<lparr>calls := calls w @ out j\<rparr>)
                @ concat (map out [Suc j..<Suc j + length xs])\<rparr>)"
  proof (rule Cons.IH)
    fix i and w' :: world
    assume "i < length xs" and "users w' = users (w\<lparr>calls := calls w @ out j\<rparr>)"
    then show "cb (xs ! i) (Suc j + i) w' = (Inr (), w'\<lparr>calls := calls w' @ out (Suc j + i)\<rparr>)"
      using Cons.prems[of "Suc i" w'] by simp
  qed
  have "[j..<j + length (x # xs)] = j # [Suc j..<Suc j + length xs]"
    by (subst upt_rec) simp
  then show ?case using hd tl by simp
qed

lemma first_rejection_replicate [simp]: "first_rejection (replicate n (Inr ())) = None"
  by (induction n) simp_all

lemma js_map_from_ok:
  assumes "\<And>i. i < length xs \<Longrightarrow> cb (xs ! i) (j + i) = Inr (f (j + i))"
  shows "js_map_from j cb xs = Inr (map f [j..<j + length xs])"
  using assms
proof (induction xs arbitrary: j)
  case Nil
  show ?case by simp
next
  case (Cons x xs)
  have hd: "cb x j = Inr (f j)" using Cons.prems[of 0] by simp
  have tl: "js_map_from (Suc j) cb xs = Inr (map f [Suc j..<Suc j + length xs])"
  proof (rule Cons.IH)
    fix i assume "i < length xs"
    then show "cb (xs ! i) (Suc j + i) = Inr (f (Suc j + i))"
      using Cons.prems[of "Suc i"] by simp
  qed
  have "[j..<j + length (x # xs)] = j # [Suc j..<Suc j + length xs]"
    by (subst upt_rec) simp
  then show ?case using hd tl by simp
qed

lemma mails_sent_append [simp]: "mails_sent (xs @ ys) = mails_sent xs @ mails_sent ys"
  by (simp add: mails_sent_def)

lemma mails_sent_seller_calls:
  "mails_sent (concat (map (\<lambda>i. [FindOne (a i), SendEmail (m i)]) is)) = map m is"
  by (induction "is") (simp_all add: mails_sent_def)

lemma mails_sent_Nil: "mails_sent [] = []"
  by (simp add: mails_sent_def)

lemma mails_sent_Cons: "mails_sent (c # cs) = mail_of c @ mails_sent cs"
  by (simp add: mails_sent_def)

lemma line_item_array:
  assumes "get_prop event ''data'' = Inr data" and "get_prop data field = Inr (JArr xs)"
  shows "line_item event field i = Inr (if i < length xs then xs ! i else JUndefined)"
  using assms by (simp add: line_item_def)

lemma seller_task_placed:
  assumes "get_prop event ''data'' = Inr data"
      and "get_prop data ''productIds'' = Inr (JArr productIds)"
      and "get_prop data ''titles'' = Inr (JArr titles)"
      and "get_prop data ''quantities'' = Inr (JArr quantities)"
      and "get_prop data ''remainingQuantities'' = Inr (JArr records)"
      and "list_all (\<lambda>r. \<not> nullish r) records"
      and "i < length productIds" and "i < length titles" and "i < length quantities"
      and "resolved env w sellerId = Some s"
      and "sendEmail_fault env = (\<lambda>m. None)"
      and "stringifiable (doc_username s)"
      and "stringifiable (titles ! i)"
      and "stringifiable (quantities ! i)"
      and "stringifiable (stock_value (first_match records (productIds ! i)))"
  shows "seller_task env Placed event sellerId i w =
           (Inr (),
            w\<lparr>calls := calls w @
               [FindOne sellerId,
                SendEmail
                  \<lparr>rcpt = doc_email s, subject = ''New Order Received'',
                   plain = [Lit (seller_plain_begin Placed), Interp (titles ! i),
                            Lit (seller_plain_end Placed)],
                   html = [Lit ''Hi '', Interp (doc_username s),
                           Lit ''A new order has been placed for your product:'',
                           Lit ''Product: '', Interp (titles ! i),
                           Lit ''Quantity Ordered: '', Interp (quantities ! i),
                           Lit ''Remaining Stock: '',
                           stock_shown (first_match records (productIds ! i))]\<rparr>]\<rparr>)"
proof -
  have p: "line_item event ''productIds'' i = Inr (productIds ! i)"
    using line_item_array[OF assms(1,2), of i] assms(7) by simp
  have t: "line_item event ''titles'' i = Inr (titles ! i)"
    using line_item_array[OF assms(1,3), of i] assms(8) by simp
  have q: "line_item event ''quantities'' i = Inr (quantities ! i)"
    using line_item_array[OF assms(1,4), of i] assms(9) by simp
  have rq: "remainingQuantity_of Placed event i = Inr (first_match records (productIds ! i))"
    using find_remaining_first_match[OF assms(1,5,6) p] by (simp add: first_match_def)
  show ?thesis
    by (subst seller_task_sends[OF assms(10) rq t q assms(12,13,14,15)])
       (simp add: assms(11))
qed

lemma buyer_task_placed:
  assumes "get_prop event ''data'' = Inr data"
      and "get_prop data ''titles'' = Inr (JArr titles)"
      and "get_prop data ''quantities'' = Inr (JArr quantities)"
      and "length quantities = length titles"
      and "sendEmail_fault env = (\<lambda>m. None)"
      and "all_stringifiable titles"
      and "all_stringifiable quantities"
      and "stringifiable (doc_username u)"
      and "js_join '', '' titles = Inr joined"
  shows "buyer_task env Placed event (Some u) w =
           (Inr (),
            w\<lparr>calls := calls w @
               [SendEmail
                  \<lparr>rcpt = doc_email u, subject = ''Order Placed'',
                   plain = [Lit buyer_plain_begin] @ joined @ [Lit (buyer_plain_end Placed)],
                   html = [Lit ''Hi '', Interp (doc_username u),
                           Lit ''Your order has been successfully placed:'']
                          @ concat (map (\<lambda>i. [Lit ''<li>'', Interp (titles ! i),
                                               Lit '' (Quantity: '', Interp (quantities ! i),
                                               Lit '')</li>''])
                                      [0..<length titles])\<rparr>]\<rparr>)"
proof -
  have item: "buyer_item Placed event (titles ! i) i =
                Inr [Lit ''<li>'', Interp (titles ! i), Lit '' (Quantity: '',
                     Interp (quantities ! i), Lit '')</li>'']"
    if "i < length titles" for i
  proof -
    have "line_item event ''quantities'' i = Inr (quantities ! i)"
      using line_item_array[OF assms(1,3), of i] that assms(4) by simp
    moreover have "stringifiable (titles ! i)"
      by (rule all_stringifiable_nth[OF assms(6) that])
    moreover have "stringifiable (quantities ! i)"
      using all_stringifiable_nth[OF assms(7), of i] that assms(4) by simp
    ultimately show ?thesis by (simp add: buyer_item_def)
  qed
  have "js_map_from 0 (\<lambda>title index. buyer_item Placed event title index) titles
        = Inr (map (\<lambda>i. [Lit ''<li>'', Interp (titles ! i), Lit '' (Quantity: '',
                          Interp (quantities ! i), Lit '')</li>''])
                 [0..<0 + length titles])"
    by (rule js_map_from_ok) (simp add: item)
  then have items: "productList Placed event =
      Inr (concat (map (\<lambda>i. [Lit ''<li>'', Interp (titles ! i), Lit '' (Quantity: '',
                             Interp (quantities ! i), Lit '')</li>'']) [0..<length titles]))"
    using assms(1,2) by (simp add: productList_def)
  have joined: "titles_joined event = Inr joined"
    using assms(1,2,9) by (simp add: titles_joined_def)
  show ?thesis
    using items joined assms(5,8)
    by (simp add: buyer_task_def bnd_def lift_def sendEmail_def emit_def)
qed


text \<open>
  C6: an \<^verbatim>\<open>order_placed\<close> event with \<open>n\<close> line items (the four parallel arrays have
  length \<open>n\<close>, \<^verbatim>\<open>remainingQuantities\<close> is an array of records; titles, quantities,
  stock values and the user names of the collection convert to text), every seller lookup
  resolving and the mail provider accepting every mail. The mails handed to the provider are
  exactly: for each line item \<open>i\<close> one mail to the address of that item's seller, about the
  item's title and quantity; and, if the buyer lookup resolves, one mail to the buyer that
  lists all \<open>n\<close> titles with their quantities. (A multiset: the order in which the seller
  mails go out is the scheduler's.)
\<close>

theorem order_placed_mails:
  assumes "get_prop event ''type'' = Inr (JStr ''order_placed'')"
      and "get_prop event ''data'' = Inr data"
      and "get_prop data ''sellerIds'' = Inr (JArr sellerIds)"
      and "get_prop data ''productIds'' = Inr (JArr productIds)"
      and "get_prop data ''titles'' = Inr (JArr titles)"
      and "get_prop data ''quantities'' = Inr (JArr quantities)"
      and "get_prop data ''remainingQuantities'' = Inr (JArr records)"
      and "length sellerIds = n" and "length productIds = n"
      and "length titles = n" and "length quantities = n"
      and "list_all (\<lambda>r. \<not> nullish r) records"
      and "map (resolved env w) sellerIds = map Some sellers"
      and "sendEmail_fault env = (\<lambda>m. None)"
      and "all_stringifiable titles"
      and "all_stringifiable quantities"
      and "list_all (\<lambda>p. stringifiable (stock_value (first_match records p))) productIds"
      and "list_all (\<lambda>d. stringifiable (doc_username d)) (users w)"
      and "js_join '', '' titles = Inr joined"
  shows "mset (mails_sent (calls (snd (handleOrderEvents env event w)))) =
           mset (mails_sent (calls w))
         + mset (map (\<lambda>i.
                   \<lparr>rcpt = doc_email (sellers ! i), subject = ''New Order Received'',
                    plain = [Lit (seller_plain_begin Placed), Interp (titles ! i),
                             Lit (seller_plain_end Placed)],
                    html = [Lit ''Hi '', Interp (doc_username (sellers ! i)),
                            Lit ''A new order has been placed for your product:'',
                            Lit ''Product: '', Interp (titles ! i),
                            Lit ''Quantity Ordered: '', Interp (quantities ! i),
                            Lit ''Remaining Stock: '',
                            stock_shown (first_match records (productIds ! i))]\<rparr>)
                 [0..<n])
         + (case resolved env w (own_prop data ''userId'') of
              None \<Rightarrow> {#}
            | Some u \<Rightarrow>
                {#\<lparr>rcpt = doc_email u, subject = ''Order Placed'',
                   plain = [Lit buyer_plain_begin] @ joined @ [Lit (buyer_plain_end Placed)],
                   html = [Lit ''Hi '', Interp (doc_username u),
                           Lit ''Your order has been successfully placed:'']
                          @ concat (map (\<lambda>i. [Lit ''<li>'', Interp (titles ! i),
                                               Lit '' (Quantity: '', Interp (quantities ! i),
                                               Lit '')</li>''])
                                      [0..<n])\<rparr>#})"
proof -
  define M where "M = (\<lambda>i.
     \<lparr>rcpt = doc_email (sellers ! i), subject = ''New Order Received'',
      plain = [Lit (seller_plain_begin Placed), Interp (titles ! i),
               Lit (seller_plain_end Placed)],
      html = [Lit ''Hi '', Interp (doc_username (sellers ! i)),
              Lit ''A new order has been placed for your product:'',
              Lit ''Product: '', Interp (titles ! i),
              Lit ''Quantity Ordered: '', Interp (quantities ! i),
              Lit ''Remaining Stock: '',
              stock_shown (first_match records (productIds ! i))]\<rparr>)"
  define out where "out = (\<lambda>i. [FindOne (sellerIds ! i), SendEmail (M i)])"
  define userId where "userId = own_prop data ''userId''"
  define w1 where "w1 = w\<lparr>calls := calls w @ [FindOne userId]\<rparr>"
  define w2 where "w2 = w1\<lparr>calls := calls w1 @ concat (map out [0..<n])\<rparr>"
  define B where "B = (\<lambda>u::user_doc.
     \<lparr>rcpt = doc_email u, subject = ''Order Placed'',
      plain = [Lit buyer_plain_begin] @ joined @ [Lit (buyer_plain_end Placed)],
      html = [Lit ''Hi '', Interp (doc_username u),
              Lit ''Your order has been successfully placed:'']
             @ concat (map (\<lambda>i. [Lit ''<li>'', Interp (titles ! i),
                                  Lit '' (Quantity: '', Interp (quantities ! i),
                                  Lit '')</li>''])
                         [0..<n])\<rparr>)"
  have nn: "\<not> nullish data" using assms(3) by (cases data) simp_all
  have uid: "get_prop data ''userId'' = Inr userId"
    unfolding userId_def by (rule get_prop_own[OF nn])
  have names: "stringifiable (doc_username s)" if "s \<in> set (users w)" for s :: user_doc
    using assms(18) that by (simp add: list_all_iff)
  have task: "seller_task env Placed event (sellerIds ! i) (0 + i) w' =
                (Inr (), w'\<lparr>calls := calls w' @ out (0 + i)\<rparr>)"
    if "i < length sellerIds" and "users w' = users w1" for i and w' :: world
  proof -
    have "map (resolved env w) sellerIds ! i = map Some sellers ! i" using assms(13) by simp
    moreover have "length sellers = length sellerIds"
      using assms(13) by (metis length_map)
    ultimately have r0: "resolved env w (sellerIds ! i) = Some (sellers ! i)"
      using that(1) by simp
    have "users w' = users w" using that(2) by (simp add: w1_def)
    then have r: "resolved env w' (sellerIds ! i) = Some (sellers ! i)"
      using resolved_same_users[of w' w env "sellerIds ! i"] r0 by simp
    have i: "i < length productIds" "i < length titles" "i < length quantities"
      using that(1) assms(8,9,10,11) by simp_all
    have s1: "stringifiable (doc_username (sellers ! i))"
      by (rule names[OF resolved_in_users[OF r0]])
    have s2: "stringifiable (titles ! i)" by (rule all_stringifiable_nth[OF assms(15) i(2)])
    have s3: "stringifiable (quantities ! i)" by (rule all_stringifiable_nth[OF assms(16) i(3)])
    have s4: "stringifiable (stock_value (first_match records (productIds ! i)))"
      using assms(17) i(1) by (simp add: list_all_length)
    show ?thesis
      using seller_task_placed[OF assms(2,4,5,6,7,12) i r assms(14) s1 s2 s3 s4]
      by (simp add: out_def M_def)
  qed
  have "settle_all (async_map_from 0 (seller_task env Placed event) sellerIds) w1 =
          (replicate (length sellerIds) (Inr ()),
           w1\<lparr>calls := calls w1 @ concat (map out [0..<0 + length sellerIds])\<rparr>)"
    by (rule settle_all_fulfilled) (rule task)
  then have join: "Promise_all (async_map_from 0 (seller_task env Placed event) sellerIds) w1 =
          (Inr (), w2)"
    using assms(8) by (simp add: Promise_all_def w2_def)
  have buyer: "buyer_task env Placed event (resolved env w userId) w2 =
     (Inr (), w2\<lparr>calls := calls w2 @
        (case resolved env w userId of None \<Rightarrow> [] | Some u \<Rightarrow> [SendEmail (B u)])\<rparr>)"
  proof (cases "resolved env w userId")
    case None
    then show ?thesis by (simp add: buyer_task_def ret_def)
  next
    case (Some u)
    have l: "length quantities = length titles" using assms(10,11) by simp
    have nu: "stringifiable (doc_username u)" by (rule names[OF resolved_in_users[OF Some]])
    from buyer_task_placed[OF assms(2,5,6) l assms(14,15,16) nu assms(19), of w2] Some assms(10)
    show ?thesis by (simp add: B_def)
  qed
  have "order_case env Placed event w = buyer_task env Placed event (resolved env w userId) w2"
    using assms(2,3) uid join
    by (simp add: order_case_def bnd_def lift_def fetchUserDetails_resolved w1_def)
  then have "handleOrderEvents env event w = buyer_task env Placed event (resolved env w userId) w2"
    using assms(1) buyer by (simp add: handleOrderEvents_def bnd_def lift_def try_catch_def)
  then have "mails_sent (calls (snd (handleOrderEvents env event w))) =
      mails_sent (calls w) @ map M [0..<n] @
        (case resolved env w userId of None \<Rightarrow> [] | Some u \<Rightarrow> [B u])"
    using buyer
    by (simp add: w2_def w1_def out_def mails_sent_seller_calls mails_sent_Cons mails_sent_Nil
          split: option.splits)
  then show ?thesis
    by (simp add: M_def B_def userId_def split: option.splits)
qed

theorem order_placed_mails_witness:
  "get_prop (order_event ''order_placed'') ''type'' = Inr (JStr ''order_placed'')
   \<and> get_prop (order_event ''order_placed'') ''data''
       = Inr (own_prop (order_event ''order_placed'') ''data'')
   \<and> get_prop (own_prop (order_event ''order_placed'') ''data'') ''sellerIds''
       = Inr (JArr [JStr ''s1'', JStr ''s2''])
   \<and> get_prop (own_prop (order_event ''order_placed'') ''data'') ''productIds''
       = Inr (JArr [JStr ''p1'', JStr ''p2''])
   \<and> get_prop (own_prop (order_event ''order_placed'') ''data'') ''titles''
       = Inr (JArr [JStr ''Lamp'', JStr ''Desk''])
   \<and> get_prop (own_prop (order_event ''order_placed'') ''data'') ''quantities''
       = Inr (JArr [JNum 2, JNum 1])
   \<and> get_prop (own_prop (order_event ''order_placed'') ''data'') ''remainingQuantities''
       = Inr (JArr [JObj [(''productId'', JStr ''p2''), (''remainingQuantity'', JNum 5)]])
   \<and> length [JStr ''s1'', JStr ''s2''] = 2
   \<and> length [JStr ''p1'', JStr ''p2''] = 2
   \<and> length [JStr ''Lamp'', JStr ''Desk''] = 2
   \<and> length [JNum 2, JNum 1] = 2
   \<and> list_all (\<lambda>r. \<not> nullish r)
        [JObj [(''productId'', JStr ''p2''), (''remainingQuantity'', JNum 5)]]
   \<and> map (resolved sample_env sample_world) [JStr ''s1'', JStr ''s2'']
       = map Some [sample_users ! 1, sample_users ! 2]
   \<and> sendEmail_fault sample_env = (\<lambda>m. None)
   \<and> all_stringifiable [JStr ''Lamp'', JStr ''Desk'']
   \<and> all_stringifiable [JNum 2, JNum 1]
   \<and> list_all (\<lambda>p. stringifiable (stock_value (first_match
          [JObj [(''productId'', JStr ''p2''), (''remainingQuantity'', JNum 5)]] p)))
        [JStr ''p1'', JStr ''p2'']
   \<and> list_all (\<lambda>d. stringifiable (doc_username d)) (users sample_world)
   \<and> js_join '', '' [JStr ''Lamp'', JStr ''Desk'']
       = Inr [Interp (JStr ''Lamp''), Lit '', '', Interp (JStr ''Desk'')]
   \<and> mset (map rcpt (mails_sent (calls (snd (handleOrderEvents sample_env
                                               (order_event ''order_placed'') sample_world)))))
       = {#JStr ''bob@x'', JStr ''carol@x'', JStr ''alice@x''#}"
proof -
  let ?ev = "order_event ''order_placed''"
  let ?data = "own_prop ?ev ''data''"
  have h1: "get_prop ?ev ''type'' = Inr (JStr ''order_placed'')" by (simp add: order_event_def)
  have h2: "get_prop ?ev ''data'' = Inr ?data" by (simp add: order_event_def own_prop_def)
  have h3: "get_prop ?data ''sellerIds'' = Inr (JArr [JStr ''s1'', JStr ''s2''])"
    by (simp add: order_event_def own_prop_def)
  have h4: "get_prop ?data ''productIds'' = Inr (JArr [JStr ''p1'', JStr ''p2''])"
    by (simp add: order_event_def own_prop_def)
  have h5: "get_prop ?data ''titles'' = Inr (JArr [JStr ''Lamp'', JStr ''Desk''])"
    by (simp add: order_event_def own_prop_def)
  have h6: "get_prop ?data ''quantities'' = Inr (JArr [JNum 2, JNum 1])"
    by (simp add: order_event_def own_prop_def)
  have h7: "get_prop ?data ''remainingQuantities''
       = Inr (JArr [JObj [(''productId'', JStr ''p2''), (''remainingQuantity'', JNum 5)]])"
    by (simp add: order_event_def own_prop_def)
  have h8: "length [JStr ''s1'', JStr ''s2''] = 2" by simp
  have h9: "length [JStr ''p1'', JStr ''p2''] = 2" by simp
  have h10: "length [JStr ''Lamp'', JStr ''Desk''] = 2" by simp
  have h11: "length [JNum 2, JNum 1] = 2" by simp
  have h12: "list_all (\<lambda>r. \<not> nullish r)
        [JObj [(''productId'', JStr ''p2''), (''remainingQuantity'', JNum 5)]]" by simp
  have h13: "map (resolved sample_env sample_world) [JStr ''s1'', JStr ''s2'']
       = map Some [sample_users ! 1, sample_users ! 2]"
    by (simp add: resolved_def sample_env_def sample_world_def sample_users_def)
  have h14: "sendEmail_fault sample_env = (\<lambda>m. None)" by (simp add: sample_env_def)
  have h15: "all_stringifiable [JStr ''Lamp'', JStr ''Desk'']" by simp
  have h16: "all_stringifiable [JNum 2, JNum 1]" by simp
  have h17: "list_all (\<lambda>p. stringifiable (stock_value (first_match
          [JObj [(''productId'', JStr ''p2''), (''remainingQuantity'', JNum 5)]] p)))
        [JStr ''p1'', JStr ''p2'']"
    by (simp add: first_match_def own_prop_def stock_value_def js_or_def)
  have h18: "list_all (\<lambda>d. stringifiable (doc_username d)) (users sample_world)"
    by (simp add: sample_world_def sample_users_def)
  have h19: "js_join '', '' [JStr ''Lamp'', JStr ''Desk'']
       = Inr [Interp (JStr ''Lamp''), Lit '', '', Interp (JStr ''Desk'')]"
    by (simp add: join_element_def)
  have buyer: "resolved sample_env sample_world (own_prop ?data ''userId'') = Some (sample_users ! 0)"
    by (simp add: resolved_def sample_env_def sample_world_def sample_users_def order_event_def
          own_prop_def)
  have two: "[0..<2] = [0, Suc 0]" by (simp add: upt_rec)
  have "mset (map rcpt (mails_sent (calls (snd (handleOrderEvents sample_env ?ev sample_world)))))
          = image_mset rcpt (mset (mails_sent (calls (snd (handleOrderEvents sample_env ?ev sample_world)))))"
    by simp
  also have "\<dots> = {#JStr ''bob@x'', JStr ''carol@x'', JStr ''alice@x''#}"
    by (subst order_placed_mails[OF h1 h2 h3 h4 h5 h6 h7 h8 h9 h10 h11 h12 h13 h14 h15 h16 h17 h18 h19])
       (simp add: buyer[unfolded sample_world_def sample_users_def] two sample_world_def
          sample_users_def mails_sent_Nil)
  finally show ?thesis
    using h1 h2 h3 h4 h5 h6 h7 h8 h9 h10 h11 h12 h13 h14 h15 h16 h17 h18 h19 by blast
qed

end
